theory Spec2Isabelle
  imports Main
begin

section \<open>Credential and session guard of the hospital management server\<close>

text \<open>
  The development embeds the authentication middleware
  (\<^verbatim>\<open>server/middleware/authMiddleware.js\<close>: \<^verbatim>\<open>generateToken\<close>,
  \<^verbatim>\<open>authenticateToken\<close>, \<^verbatim>\<open>handleFailedLogin\<close>, \<^verbatim>\<open>resetFailedAttempts\<close>,
  \<^verbatim>\<open>createSession\<close>, \<^verbatim>\<open>logout\<close>, \<^verbatim>\<open>authRateLimit\<close>) and the routes
  \<^verbatim>\<open>POST /login\<close>, \<^verbatim>\<open>POST /logout\<close> and \<^verbatim>\<open>POST /enable-2fa\<close> of
  \<^verbatim>\<open>server/routes/authRoutes.js\<close>.

  Conventions of the embedding:
  \<^item> a request is served at one instant \<open>now\<close>, the milliseconds since the epoch that
    \<^verbatim>\<open>Date.now()\<close> and \<^verbatim>\<open>new Date()\<close> return; the Redis server expires keys by the
    same clock;
  \<^item> the \<^verbatim>\<open>users\<close> table is the list of its rows that are not soft-deleted, Redis is a
    map from keys to entries, and every handler takes the world and returns it updated;
    the database answers every query;
  \<^item> a Redis command may throw: the world carries the schedule of the coming commands,
    \<open>None\<close> for a command that is served and \<open>Some m\<close> for one that throws an error
    with message \<open>m\<close>; an empty schedule is a healthy store;
  \<^item> the libraries (\<^verbatim>\<open>bcryptjs\<close>, \<^verbatim>\<open>speakeasy\<close>, \<^verbatim>\<open>express-validator\<close>,
    \<^verbatim>\<open>qrcode\<close>) and the process environment are the fields of \<open>env\<close>
    (\<open>qrcode_toDataURL\<close> is the image of the provisioning URI of a secret and a label);
    every theorem holds for all of them. \<^verbatim>\<open>jsonwebtoken\<close> is modelled on structured tokens.
\<close>

subsection \<open>Tokens\<close>

text \<open>The payload that \<^verbatim>\<open>jwt.sign({ userId, role }, secret, { expiresIn })\<close> signs:
  the two claims, the issue time and the absolute expiry, both in seconds.\<close>

record jwt_payload =
  userId :: string
  jwt_role :: string
  iat :: int
  exp :: int

text \<open>A bearer token is either a string that is no JSON Web Token at all, or a well-formed
  one: a payload and the key its signature was made with.\<close>

datatype token = Opaque string | Jwt string jwt_payload

datatype js_error = TokenExpiredError | JsonWebTokenError | OtherError string

text \<open>\<^verbatim>\<open>jwt.verify(token, secret)\<close>: the signature is checked before the expiry, and
  a token is expired as soon as \<^verbatim>\<open>Math.floor(Date.now() / 1000) >= exp\<close>.\<close>

fun jwt_verify :: "token \<Rightarrow> string \<Rightarrow> int \<Rightarrow> js_error + jwt_payload" where
  "jwt_verify (Opaque s) secret now = Inl JsonWebTokenError"
| "jwt_verify (Jwt k p) secret now =
     (if k \<noteq> secret then Inl JsonWebTokenError
      else if exp p \<le> now div 1000 then Inl TokenExpiredError
      else Inr p)"

text \<open>\<^verbatim>\<open>jwt.decode(token)\<close> reads the payload without any check; \<open>None\<close> is
  \<^verbatim>\<open>null\<close>.\<close>

fun jwt_decode :: "token \<Rightarrow> jwt_payload option" where
  "jwt_decode (Opaque s) = None"
| "jwt_decode (Jwt k p) = Some p"

subsection \<open>JSON values and responses\<close>

text \<open>A string that is a bearer token is kept as the token (\<open>JTok\<close>); a date is the
  number of its milliseconds.\<close>

datatype json =
  JNull | JBool bool | JNum int | JStr string | JTok token
| JArr "json list" | JObj "(string \<times> json) list"

record response =
  status :: nat
  body :: json

text \<open>A middleware either answers the request or calls \<^verbatim>\<open>next()\<close>, having attached
  something to the request.\<close>

datatype 'a outcome = Respond response | Next 'a

text \<open>\<^verbatim>\<open>res.status(code).json({...})\<close>\<close>

definition json_response :: "nat \<Rightarrow> (string \<times> json) list \<Rightarrow> response" where
  "json_response code props = \<lparr>status = code, body = JObj props\<rparr>"

text \<open>Property lookup in an object; \<open>None\<close> is \<^verbatim>\<open>undefined\<close>.\<close>

definition json_get :: "string \<Rightarrow> json \<Rightarrow> json option" where
  "json_get k j = (case j of JObj props \<Rightarrow> map_of props k | _ \<Rightarrow> None)"

text \<open>\<^verbatim>\<open>delete obj[k]\<close>\<close>

definition json_delete :: "string \<Rightarrow> (string \<times> json) list \<Rightarrow> (string \<times> json) list" where
  "json_delete k props = filter (\<lambda>kv. fst kv \<noteq> k) props"

text \<open>Decimal digits of a natural number, for the numbers interpolated into messages.\<close>

fun show_nat :: "nat \<Rightarrow> string" where
  "show_nat n = (if n < 10 then [char_of (48 + n)] else show_nat (n div 10) @ [char_of (48 + n mod 10)])"

definition show_int :: "int \<Rightarrow> string" where
  "show_int i = (if i < 0 then CHR ''-'' # show_nat (nat (- i)) else show_nat (nat i))"

subsection \<open>Accounts\<close>

text \<open>A row of the \<^verbatim>\<open>users\<close> table with the columns the code reads or writes, as
  \<^verbatim>\<open>CREATE TABLE users\<close> of the schema declares them (the primary key \<^verbatim>\<open>id\<close> is
  \<open>user_id\<close>; a date is the number of its milliseconds), the joined \<^verbatim>\<open>staff\<close> row as the
  JSON it serialises to, and the remaining columns, which this code never touches. The
  model file of \<^verbatim>\<open>User\<close> is not among the sources: the instance is taken to have the
  columns of the table as its attributes and the serialisation of the library.\<close>

record user =
  user_id :: string
  email :: string
  password_hash :: string
  role :: string
  is_active :: bool
  last_login :: "int option"
  failed_login_attempts :: "int option"
  locked_until :: "int option"
  two_factor_enabled :: bool
  two_factor_secret :: "string option"
  staff :: json
  other_columns :: "(string \<times> json) list"

definition json_of_option :: "('a \<Rightarrow> json) \<Rightarrow> 'a option \<Rightarrow> json" where
  "json_of_option f x = (case x of None \<Rightarrow> JNull | Some v \<Rightarrow> f v)"

text \<open>\<^verbatim>\<open>user.toJSON()\<close>: every attribute of the instance and the included association.\<close>

definition toJSON :: "user \<Rightarrow> (string \<times> json) list" where
  "toJSON u =
     [(''id'', JStr (user_id u)),
      (''email'', JStr (email u)),
      (''password_hash'', JStr (password_hash u)),
      (''role'', JStr (role u)),
      (''is_active'', JBool (is_active u)),
      (''last_login'', json_of_option JNum (last_login u)),
      (''failed_login_attempts'', json_of_option JNum (failed_login_attempts u)),
      (''locked_until'', json_of_option JNum (locked_until u)),
      (''two_factor_enabled'', JBool (two_factor_enabled u)),
      (''two_factor_secret'', json_of_option JStr (two_factor_secret u))]
     @ other_columns u @ [(''staff'', staff u)]"

subsection \<open>The world: database, Redis, audit trail\<close>

datatype redis_key =
  Auth_rate_limit string
| Blacklist token
| Session string token

text \<open>Redis holds strings. A value that \<^verbatim>\<open>INCR\<close> maintains is a decimal integer and is
  kept as that integer; the result of \<^verbatim>\<open>JSON.stringify\<close> is kept as the JSON value; every
  other value is text.\<close>

datatype redis_value = Counter int | Text string | Stringified json

record redis_entry =
  val :: redis_value
  expires_at :: "int option"

record audit_record =
  event :: string
  actor :: "string option"
  timestamp :: int
  details :: "(string \<times> json) list"

record world =
  users :: "user list"
  redis :: "redis_key \<Rightarrow> redis_entry option"
  redis_faults :: "string option list"
  audit_log :: "audit_record list"

record env =
  JWT_SECRET :: "string option"
  JWT_EXPIRES_IN :: "int option"
  bcrypt_compare :: "string \<Rightarrow> string \<Rightarrow> bool"
  totp_verify :: "string \<Rightarrow> string option \<Rightarrow> int \<Rightarrow> string + bool"
  isEmail :: "string \<Rightarrow> bool"
  normalizeEmail :: "string \<Rightarrow> string"
  qrcode_toDataURL :: "string \<Rightarrow> string \<Rightarrow> string"

text \<open>\<^verbatim>\<open>process.env.JWT_SECRET || 'hms-jwt-secret'\<close> (an empty string is falsy) and
  \<^verbatim>\<open>process.env.JWT_EXPIRES_IN || '24h'\<close>, in seconds.\<close>

definition jwt_secret :: "env \<Rightarrow> string" where
  "jwt_secret e =
     (case JWT_SECRET e of None \<Rightarrow> ''hms-jwt-secret''
      | Some s \<Rightarrow> if s = [] then ''hms-jwt-secret'' else s)"

definition jwt_expires_in :: "env \<Rightarrow> int" where
  "jwt_expires_in e = (case JWT_EXPIRES_IN e of None \<Rightarrow> 24 * 60 * 60 | Some s \<Rightarrow> s)"

subsection \<open>Redis commands\<close>

text \<open>Every command first takes its turn in the fault schedule.\<close>

definition redis_call :: "world \<Rightarrow> string option \<times> world" where
  "redis_call w =
     (case redis_faults w of [] \<Rightarrow> (None, w) | f # fs \<Rightarrow> (f, w\<lparr>redis_faults := fs\<rparr>))"

text \<open>The value of an entry that has not expired.\<close>

definition live :: "int \<Rightarrow> redis_entry option \<Rightarrow> redis_value option" where
  "live now e =
     (case e of None \<Rightarrow> None
      | Some x \<Rightarrow>
          (case expires_at x of None \<Rightarrow> Some (val x)
           | Some t \<Rightarrow> if now < t then Some (val x) else None))"

definition redis_get :: "int \<Rightarrow> redis_key \<Rightarrow> world \<Rightarrow> (js_error + redis_value option) \<times> world" where
  "redis_get now k w =
     (case redis_call w of
        (Some m, w1) \<Rightarrow> (Inl (OtherError m), w1)
      | (None, w1) \<Rightarrow> (Inr (live now (redis w1 k)), w1))"

text \<open>\<^verbatim>\<open>SETEX key seconds value\<close>; Redis refuses a time-to-live that is not positive.\<close>

definition redis_setex :: "int \<Rightarrow> redis_key \<Rightarrow> int \<Rightarrow> redis_value \<Rightarrow> world \<Rightarrow> (js_error + unit) \<times> world" where
  "redis_setex now k seconds v w =
     (case redis_call w of
        (Some m, w1) \<Rightarrow> (Inl (OtherError m), w1)
      | (None, w1) \<Rightarrow>
          if seconds \<le> 0 then (Inl (OtherError ''ERR invalid expire time''), w1)
          else (Inr (),
                w1\<lparr>redis := (redis w1)(k \<mapsto> \<lparr>val = v, expires_at = Some (now + seconds * 1000)\<rparr>)\<rparr>))"

definition redis_del :: "int \<Rightarrow> redis_key \<Rightarrow> world \<Rightarrow> (js_error + unit) \<times> world" where
  "redis_del now k w =
     (case redis_call w of
        (Some m, w1) \<Rightarrow> (Inl (OtherError m), w1)
      | (None, w1) \<Rightarrow> (Inr (), w1\<lparr>redis := (redis w1)(k := None)\<rparr>))"

text \<open>\<^verbatim>\<open>multi().incr(key).expire(key, seconds).exec()\<close>: one transaction. \<^verbatim>\<open>INCR\<close>
  starts a missing or expired key at 1 and keeps the expiry of a live one; it fails on a
  value that is not an integer, and \<^verbatim>\<open>EXPIRE\<close> then still applies.\<close>

definition redis_multi_incr_expire :: "int \<Rightarrow> redis_key \<Rightarrow> int \<Rightarrow> world \<Rightarrow> (js_error + unit) \<times> world" where
  "redis_multi_incr_expire now k seconds w =
     (case redis_call w of
        (Some m, w1) \<Rightarrow> (Inl (OtherError m), w1)
      | (None, w1) \<Rightarrow>
          (case live now (redis w1 k) of
             None \<Rightarrow>
               (Inr (),
                w1\<lparr>redis := (redis w1)(k \<mapsto> \<lparr>val = Counter 1, expires_at = Some (now + seconds * 1000)\<rparr>)\<rparr>)
           | Some (Counter n) \<Rightarrow>
               (Inr (),
                w1\<lparr>redis := (redis w1)(k \<mapsto> \<lparr>val = Counter (n + 1), expires_at = Some (now + seconds * 1000)\<rparr>)\<rparr>)
           | Some v \<Rightarrow>
               (Inl (OtherError ''ERR value is not an integer or out of range''),
                w1\<lparr>redis := (redis w1)(k \<mapsto> \<lparr>val = v, expires_at = Some (now + seconds * 1000)\<rparr>)\<rparr>)))"

text \<open>JavaScript truthiness of a stored string and \<^verbatim>\<open>parseInt\<close> of it; \<open>None\<close> is
  \<^verbatim>\<open>NaN\<close>. Only a counter is a number in this program.\<close>

definition truthy :: "redis_value \<Rightarrow> bool" where
  "truthy v = (case v of Counter n \<Rightarrow> True | Text s \<Rightarrow> s \<noteq> [] | Stringified j \<Rightarrow> True)"

definition parseInt :: "redis_value \<Rightarrow> int option" where
  "parseInt v = (case v of Counter n \<Rightarrow> Some n | Text s \<Rightarrow> None | Stringified j \<Rightarrow> None)"

subsection \<open>Rate limiting of the authentication endpoints\<close>

definition too_many_attempts :: response where
  "too_many_attempts =
     json_response 429
       [(''success'', JBool False),
        (''message'', JStr ''Too many authentication attempts. Please try again later.'')]"

definition authRateLimit :: "int \<Rightarrow> world \<Rightarrow> string \<Rightarrow> unit outcome \<times> world" where
  "authRateLimit now w ip =
     (let key = Auth_rate_limit ip;
          maxAttempts = 10;
          windowMs = 15 * 60 * 1000
      in case redis_get now key w of
           (Inl error, w1) \<Rightarrow> (Next (), w1)
         | (Inr current, w1) \<Rightarrow>
             if (case current of None \<Rightarrow> False
                 | Some c \<Rightarrow> truthy c \<and> (case parseInt c of None \<Rightarrow> False | Some n \<Rightarrow> maxAttempts \<le> n))
             then (Respond too_many_attempts, w1)
             else (case redis_multi_incr_expire now key (windowMs div 1000) w1 of
                     (Inl error, w2) \<Rightarrow> (Next (), w2)
                   | (Inr ok, w2) \<Rightarrow> (Next (), w2)))"

subsection \<open>Requests\<close>

text \<open>What the handlers read of a request: \<^verbatim>\<open>req.ip\<close>, \<^verbatim>\<open>req.get('User-Agent')\<close>
  and \<^verbatim>\<open>req.headers['authorization']\<close>, the latter as the list of its parts between
  spaces (\<^verbatim>\<open>authHeader.split(' ')\<close>), each a token.\<close>

record request =
  ip :: string
  user_agent :: "string option"
  authorization :: "token list option"

text \<open>The body of \<^verbatim>\<open>POST /login\<close> (\<^verbatim>\<open>email\<close>, \<^verbatim>\<open>password\<close>, \<^verbatim>\<open>twoFactorToken\<close>; a
  missing string field counts as empty, as for the validators) and the errors that
  the validators have attached.\<close>

record login_request = request +
  body_email :: string
  body_password :: string
  twoFactorToken :: "string option"
  validation_errors :: "json list"

definition request_details :: "'a request_scheme \<Rightarrow> (string \<times> json) list" where
  "request_details req =
     [(''ip'', JStr (ip req)), (''userAgent'', json_of_option JStr (user_agent req))]"

text \<open>\<^verbatim>\<open>logSecurityEvent(event, userId, details)\<close> appends to the audit trail.\<close>

definition logSecurityEvent :: "int \<Rightarrow> string \<Rightarrow> string option \<Rightarrow> (string \<times> json) list \<Rightarrow> world \<Rightarrow> world" where
  "logSecurityEvent now ev uid det w =
     w\<lparr>audit_log := audit_log w @ [\<lparr>event = ev, actor = uid, timestamp = now, details = det\<rparr>]\<rparr>"

subsection \<open>Queries on the users table\<close>

text \<open>\<^verbatim>\<open>User.findByPk(id)\<close>, \<^verbatim>\<open>User.findOne({ where: { email, is_active: true } })\<close> and
  an update of the row with a given primary key.\<close>

definition findByPk :: "user list \<Rightarrow> string \<Rightarrow> user option" where
  "findByPk us i = find (\<lambda>u. user_id u = i) us"

definition findOne :: "user list \<Rightarrow> string \<Rightarrow> user option" where
  "findOne us em = find (\<lambda>u. email u = em \<and> is_active u) us"

definition update_user :: "string \<Rightarrow> (user \<Rightarrow> user) \<Rightarrow> user list \<Rightarrow> user list" where
  "update_user i f us = map (\<lambda>u. if user_id u = i then f u else u) us"

subsection \<open>Password, token and lockout helpers of the middleware\<close>

definition generateToken :: "env \<Rightarrow> int \<Rightarrow> string \<Rightarrow> string \<Rightarrow> token" where
  "generateToken e now uid r =
     Jwt (jwt_secret e)
       \<lparr>userId = uid, jwt_role = r, iat = now div 1000, exp = now div 1000 + jwt_expires_in e\<rparr>"

definition verifyPassword :: "env \<Rightarrow> string \<Rightarrow> string \<Rightarrow> bool" where
  "verifyPassword e password hashedPassword = bcrypt_compare e password hashedPassword"

definition verifyTwoFactorToken :: "env \<Rightarrow> int \<Rightarrow> string \<Rightarrow> string option \<Rightarrow> string + bool" where
  "verifyTwoFactorToken e now tok secret = totp_verify e tok secret now"

text \<open>The test \<^verbatim>\<open>user.locked_until && new Date() < user.locked_until\<close> of the login
  handler and of \<^verbatim>\<open>authenticateToken\<close>: the expiry of the lock while it is live.\<close>

definition live_lock :: "int \<Rightarrow> user \<Rightarrow> int option" where
  "live_lock now u =
     (case locked_until u of None \<Rightarrow> None | Some t \<Rightarrow> if now < t then Some t else None)"

definition is_locked :: "int \<Rightarrow> user \<Rightarrow> bool" where
  "is_locked now u = (live_lock now u \<noteq> None)"

text \<open>\<^verbatim>\<open>user.failed_login_attempts || 0\<close>\<close>

definition attempts_or_0 :: "user \<Rightarrow> int" where
  "attempts_or_0 u = (case failed_login_attempts u of None \<Rightarrow> 0 | Some n \<Rightarrow> n)"

definition handleFailedLogin :: "int \<Rightarrow> string \<Rightarrow> world \<Rightarrow> world" where
  "handleFailedLogin now uid w =
     (case findByPk (users w) uid of
        None \<Rightarrow> w
      | Some u \<Rightarrow>
          (let failedAttempts = attempts_or_0 u + 1;
               maxAttempts = 5;
               lockoutDuration = 30 * 60 * 1000
           in if maxAttempts \<le> failedAttempts then
                logSecurityEvent now ''account_locked'' (Some uid)
                  [(''reason'', JStr ''too_many_failed_attempts''), (''attempts'', JNum failedAttempts)]
                  (w\<lparr>users := update_user (user_id u)
                       (\<lambda>r. r\<lparr>failed_login_attempts := Some failedAttempts,
                                locked_until := Some (now + lockoutDuration)\<rparr>) (users w)\<rparr>)
              else
                w\<lparr>users := update_user (user_id u)
                     (\<lambda>r. r\<lparr>failed_login_attempts := Some failedAttempts\<rparr>) (users w)\<rparr>))"

definition resetFailedAttempts :: "int \<Rightarrow> string \<Rightarrow> world \<Rightarrow> world" where
  "resetFailedAttempts now uid w =
     w\<lparr>users := update_user uid
          (\<lambda>r. r\<lparr>failed_login_attempts := Some 0, locked_until := None, last_login := Some now\<rparr>)
          (users w)\<rparr>"

definition createSession :: "int \<Rightarrow> string \<Rightarrow> token \<Rightarrow> 'a request_scheme \<Rightarrow> world \<Rightarrow> (js_error + unit) \<times> world" where
  "createSession now uid tok req w =
     (let sessionData =
            JObj [(''userId'', JStr uid), (''token'', JTok tok), (''ip'', JStr (ip req)),
                  (''userAgent'', json_of_option JStr (user_agent req)), (''createdAt'', JNum now)]
      in redis_setex now (Session uid tok) (24 * 60 * 60) (Stringified sessionData) w)"

text \<open>The message of a caught error.\<close>

definition error_message :: "js_error \<Rightarrow> string" where
  "error_message err =
     (case err of TokenExpiredError \<Rightarrow> ''jwt expired'' | JsonWebTokenError \<Rightarrow> ''invalid token''
      | OtherError m \<Rightarrow> m)"

subsection \<open>The route \<^verbatim>\<open>POST /login\<close>\<close>

definition validation_error :: "json \<Rightarrow> string \<Rightarrow> string \<Rightarrow> json" where
  "validation_error v msg param =
     JObj [(''value'', v), (''msg'', JStr msg), (''param'', JStr param), (''location'', JStr ''body'')]"

text \<open>The validation chain of the route: it checks the three fields, normalises the
  email and leaves its errors on the request.\<close>

definition login_validators :: "env \<Rightarrow> login_request \<Rightarrow> login_request" where
  "login_validators e req =
     req\<lparr>body_email := normalizeEmail e (body_email req),
         validation_errors :=
           (if isEmail e (body_email req) then []
            else [validation_error (JStr (body_email req)) ''Valid email required'' ''email''])
           @ (if 6 \<le> length (body_password req) then []
              else [validation_error (JStr (body_password req))
                      ''Password must be at least 6 characters'' ''password''])
           @ (case twoFactorToken req of
                None \<Rightarrow> []
              | Some t \<Rightarrow>
                  if length t = 6 then []
                  else [validation_error (JStr t) ''2FA token must be 6 digits'' ''twoFactorToken''])\<rparr>"

definition validation_failed :: "json list \<Rightarrow> response" where
  "validation_failed errors =
     json_response 400
       [(''success'', JBool False), (''message'', JStr ''Validation failed''), (''errors'', JArr errors)]"

definition invalid_credentials :: response where
  "invalid_credentials =
     json_response 401 [(''success'', JBool False), (''message'', JStr ''Invalid credentials'')]"

text \<open>\<^verbatim>\<open>Math.ceil((user.locked_until - new Date()) / 60000)\<close>\<close>

definition lockTimeRemaining :: "int \<Rightarrow> int \<Rightarrow> int" where
  "lockTimeRemaining until now = - ((- (until - now)) div 60000)"

definition account_locked :: "int \<Rightarrow> response" where
  "account_locked remaining =
     json_response 423
       [(''success'', JBool False),
        (''message'', JStr (''Account locked. Try again in '' @ show_int remaining @ '' minutes.''))]"

definition two_factor_required :: response where
  "two_factor_required =
     json_response 200
       [(''success'', JBool True),
        (''data'', JObj [(''twoFactorRequired'', JBool True),
                         (''message'', JStr ''Two-factor authentication required'')])]"

definition invalid_two_factor :: response where
  "invalid_two_factor =
     json_response 401
       [(''success'', JBool False), (''message'', JStr ''Invalid two-factor authentication code'')]"

definition login_failed :: "string \<Rightarrow> response" where
  "login_failed msg =
     json_response 500
       [(''success'', JBool False), (''message'', JStr ''Login failed''), (''error'', JStr msg)]"

definition login_successful :: "token \<Rightarrow> (string \<times> json) list \<Rightarrow> response" where
  "login_successful tok userData =
     json_response 200
       [(''success'', JBool True),
        (''data'', JObj [(''token'', JTok tok), (''user'', JObj userData)]),
        (''message'', JStr ''Login successful'')]"

text \<open>The end of the handler, from \<^verbatim>\<open>// Generate JWT token\<close> on: the two branches that
  reach it (no second factor enrolled, or a valid code) share it. The serialised user is
  the instance that was read at the start of the request.\<close>

definition complete_login :: "env \<Rightarrow> int \<Rightarrow> world \<Rightarrow> login_request \<Rightarrow> user \<Rightarrow> response \<times> world" where
  "complete_login e now w req u =
     (let tok = generateToken e now (user_id u) (role u);
          w1 = resetFailedAttempts now (user_id u) w
      in case createSession now (user_id u) tok req w1 of
           (Inl err, w2) \<Rightarrow> (login_failed (error_message err), w2)
         | (Inr ok, w2) \<Rightarrow>
             (let w3 = logSecurityEvent now ''login_successful'' (Some (user_id u)) (request_details req) w2;
                  userData = json_delete ''two_factor_secret'' (json_delete ''password_hash'' (toJSON u))
              in (login_successful tok userData, w3)))"

definition login_handler :: "env \<Rightarrow> int \<Rightarrow> world \<Rightarrow> login_request \<Rightarrow> response \<times> world" where
  "login_handler e now w req =
     (if validation_errors req \<noteq> [] then (validation_failed (validation_errors req), w)
      else
        case findOne (users w) (body_email req) of
          None \<Rightarrow>
            (invalid_credentials,
             logSecurityEvent now ''login_attempt_invalid_user'' None
               ((''email'', JStr (body_email req)) # request_details req) w)
        | Some u \<Rightarrow>
            (case live_lock now u of
               Some until \<Rightarrow> (account_locked (lockTimeRemaining until now), w)
             | None \<Rightarrow>
                 if \<not> verifyPassword e (body_password req) (password_hash u) then
                   (invalid_credentials,
                    logSecurityEvent now ''login_attempt_invalid_password'' (Some (user_id u))
                      (request_details req) (handleFailedLogin now (user_id u) w))
                 else if two_factor_enabled u then
                   (case twoFactorToken req of
                      None \<Rightarrow> (two_factor_required, w)
                    | Some t \<Rightarrow>
                        if t = [] then (two_factor_required, w)
                        else
                          (case verifyTwoFactorToken e now t (two_factor_secret u) of
                             Inl msg \<Rightarrow> (login_failed msg, w)
                           | Inr is2FAValid \<Rightarrow>
                               if \<not> is2FAValid then
                                 (invalid_two_factor,
                                  logSecurityEvent now ''login_attempt_invalid_2fa'' (Some (user_id u))
                                    (request_details req) w)
                               else complete_login e now w req u))
                 else complete_login e now w req u))"

text \<open>The middleware chain of the route: the rate limiter, the validators, the handler.\<close>

definition post_login :: "env \<Rightarrow> int \<Rightarrow> world \<Rightarrow> login_request \<Rightarrow> response \<times> world" where
  "post_login e now w req =
     (case authRateLimit now w (ip req) of
        (Respond r, w1) \<Rightarrow> (r, w1)
      | (Next ok, w1) \<Rightarrow> login_handler e now w1 (login_validators e req))"

text \<open>Requests served one after the other, each at its own instant.\<close>

fun serve :: "(int \<Rightarrow> world \<Rightarrow> 'r \<Rightarrow> response \<times> world) \<Rightarrow> world \<Rightarrow> (int \<times> 'r) list \<Rightarrow> response list \<times> world" where
  "serve h w [] = ([], w)"
| "serve h w ((now, r) # rs) =
     (case h now w r of
        (resp, w1) \<Rightarrow> (case serve h w1 rs of (resps, w2) \<Rightarrow> (resp # resps, w2)))"

subsection \<open>Authentication of a bearer token\<close>

definition unauthenticated :: "string \<Rightarrow> response" where
  "unauthenticated msg = json_response 401 [(''success'', JBool False), (''message'', JStr msg)]"

definition temporarily_locked :: response where
  "temporarily_locked =
     json_response 423 [(''success'', JBool False), (''message'', JStr ''Account is temporarily locked'')]"

definition authentication_error :: response where
  "authentication_error =
     json_response 500 [(''success'', JBool False), (''message'', JStr ''Authentication error'')]"

text \<open>\<^verbatim>\<open>authHeader && authHeader.split(' ')[1]\<close>: the second part of the header, if there
  is one; an empty part is falsy, as a missing one.\<close>

definition bearer :: "'a request_scheme \<Rightarrow> token option" where
  "bearer req =
     (case authorization req of
        None \<Rightarrow> None
      | Some parts \<Rightarrow>
          (case parts of
             a # t # rest \<Rightarrow> if t = Opaque [] then None else Some t
           | _ \<Rightarrow> None))"

text \<open>On success the middleware attaches the user, read without the attribute
  \<^verbatim>\<open>password_hash\<close> (the instance holds no hash: the empty string here), and the token.\<close>

definition authenticateToken :: "env \<Rightarrow> int \<Rightarrow> world \<Rightarrow> 'a request_scheme \<Rightarrow> (user \<times> token) outcome \<times> world" where
  "authenticateToken e now w req =
     (case bearer req of
        None \<Rightarrow> (Respond (unauthenticated ''Access token required''), w)
      | Some tok \<Rightarrow>
          (case redis_get now (Blacklist tok) w of
             (Inl error, w1) \<Rightarrow> (Respond authentication_error, w1)
           | (Inr isBlacklisted, w1) \<Rightarrow>
               if (case isBlacklisted of None \<Rightarrow> False | Some b \<Rightarrow> truthy b) then
                 (Respond (unauthenticated ''Token has been invalidated''), w1)
               else
                 (case jwt_verify tok (jwt_secret e) now of
                    Inl TokenExpiredError \<Rightarrow> (Respond (unauthenticated ''Token has expired''), w1)
                  | Inl JsonWebTokenError \<Rightarrow> (Respond (unauthenticated ''Invalid token''), w1)
                  | Inl (OtherError m) \<Rightarrow> (Respond authentication_error, w1)
                  | Inr decoded \<Rightarrow>
                      (case findByPk (users w1) (userId decoded) of
                         None \<Rightarrow> (Respond (unauthenticated ''User not found or inactive''), w1)
                       | Some u \<Rightarrow>
                           if \<not> is_active u then
                             (Respond (unauthenticated ''User not found or inactive''), w1)
                           else if is_locked now u then (Respond temporarily_locked, w1)
                           else (Next (u\<lparr>password_hash := []\<rparr>, tok), w1)))))"

subsection \<open>The route \<^verbatim>\<open>POST /logout\<close>\<close>

definition logged_out :: response where
  "logged_out =
     json_response 200 [(''success'', JBool True), (''message'', JStr ''Logged out successfully'')]"

definition logout_failed :: response where
  "logout_failed =
     json_response 500 [(''success'', JBool False), (''message'', JStr ''Logout failed'')]"

text \<open>\<^verbatim>\<open>logout(req, res)\<close> with \<^verbatim>\<open>req.user\<close> and \<^verbatim>\<open>req.token\<close> as the middleware left
  them. Reading \<^verbatim>\<open>exp\<close> of a token that does not decode throws.\<close>

definition logout :: "int \<Rightarrow> world \<Rightarrow> 'a request_scheme \<Rightarrow> user \<Rightarrow> token \<Rightarrow> response \<times> world" where
  "logout now w req u tok =
     (case jwt_decode tok of
        None \<Rightarrow> (logout_failed, w)
      | Some decoded \<Rightarrow>
          (let expiresIn = exp decoded - now div 1000
           in case (if 0 < expiresIn then redis_setex now (Blacklist tok) expiresIn (Text ''true'') w
                    else (Inr (), w)) of
                (Inl error, w1) \<Rightarrow> (logout_failed, w1)
              | (Inr ok, w1) \<Rightarrow>
                  (case redis_del now (Session (user_id u) tok) w1 of
                     (Inl error, w2) \<Rightarrow> (logout_failed, w2)
                   | (Inr ok, w2) \<Rightarrow>
                       (logged_out,
                        logSecurityEvent now ''user_logout'' (Some (user_id u)) (request_details req) w2))))"

definition post_logout :: "env \<Rightarrow> int \<Rightarrow> world \<Rightarrow> request \<Rightarrow> response \<times> world" where
  "post_logout e now w req =
     (case authenticateToken e now w req of
        (Respond r, w1) \<Rightarrow> (r, w1)
      | (Next (u, tok), w1) \<Rightarrow> logout now w1 req u tok)"

subsection \<open>The route \<^verbatim>\<open>POST /enable-2fa\<close>\<close>

definition already_enabled :: response where
  "already_enabled =
     json_response 400
       [(''success'', JBool False), (''message'', JStr ''Two-factor authentication is already enabled'')]"

definition enable_2fa_failed :: "string \<Rightarrow> response" where
  "enable_2fa_failed msg =
     json_response 500
       [(''success'', JBool False), (''message'', JStr ''Failed to enable 2FA''), (''error'', JStr msg)]"

definition setup_initiated :: "string \<Rightarrow> string \<Rightarrow> response" where
  "setup_initiated base32 qrCodeImage =
     json_response 200
       [(''success'', JBool True),
        (''data'', JObj [(''secret'', JStr base32), (''qrCode'', JStr qrCodeImage),
                         (''manualEntryKey'', JStr base32)]),
        (''message'', JStr ''Scan QR code with your authenticator app and verify to enable 2FA'')]"

text \<open>The handler, with the secret that \<^verbatim>\<open>generateTwoFactorSecret()\<close> draws this time
  given as \<open>base32\<close>. It stores the secret and leaves \<^verbatim>\<open>two_factor_enabled\<close> as it is.\<close>

definition enable_2fa_handler :: "env \<Rightarrow> string \<Rightarrow> world \<Rightarrow> user \<Rightarrow> response \<times> world" where
  "enable_2fa_handler e base32 w req_user =
     (case findByPk (users w) (user_id req_user) of
        None \<Rightarrow> (enable_2fa_failed ''Cannot read properties of null'', w)
      | Some u \<Rightarrow>
          if two_factor_enabled u then (already_enabled, w)
          else
            (let qrCodeImage = qrcode_toDataURL e base32 (email u)
             in (setup_initiated base32 qrCodeImage,
                 w\<lparr>users := update_user (user_id u)
                      (\<lambda>r. r\<lparr>two_factor_secret := Some base32\<rparr>) (users w)\<rparr>)))"

definition post_enable_2fa :: "env \<Rightarrow> string \<Rightarrow> int \<Rightarrow> world \<Rightarrow> request \<Rightarrow> response \<times> world" where
  "post_enable_2fa e base32 now w req =
     (case authenticateToken e now w req of
        (Respond r, w1) \<Rightarrow> (r, w1)
      | (Next (u, tok), w1) \<Rightarrow> enable_2fa_handler e base32 w1 u)"

subsection \<open>Notions used in the statements\<close>

text \<open>The user object of a successful login response: \<^verbatim>\<open>user.toJSON()\<close> with the two
  properties deleted, as \<^verbatim>\<open>complete_login\<close> builds it.\<close>

definition public_user_data :: "user \<Rightarrow> (string \<times> json) list" where
  "public_user_data u = json_delete ''two_factor_secret'' (json_delete ''password_hash'' (toJSON u))"

text \<open>The state of the counter of an address after \<open>k\<close> requests have passed the limiter
  in the window that starts at \<open>t0\<close>, the store being healthy: no live counter for
  \<open>k = 0\<close>, and otherwise the count \<open>k\<close>, expiring no sooner than 15 minutes after the
  start of the window.\<close>

definition counted :: "string \<Rightarrow> int \<Rightarrow> nat \<Rightarrow> world \<Rightarrow> bool" where
  "counted addr t0 k w \<longleftrightarrow>
     redis_faults w = [] \<and>
     (if k = 0 then live t0 (redis w (Auth_rate_limit addr)) = None
      else (case redis w (Auth_rate_limit addr) of
              None \<Rightarrow> False
            | Some x \<Rightarrow>
                val x = Counter (int k) \<and>
                (case expires_at x of None \<Rightarrow> False | Some t \<Rightarrow> t0 + 15 * 60 * 1000 \<le> t)))"

subsection \<open>A small deployment\<close>

text \<open>Concrete libraries, one account and a healthy empty store, on which the theorems
  below are instantiated.\<close>

definition demo_env :: env where
  "demo_env =
     \<lparr>JWT_SECRET = None, JWT_EXPIRES_IN = None,
      bcrypt_compare = (\<lambda>p h. h = ''bcrypt:'' @ p),
      totp_verify = (\<lambda>t s now. Inr (s = Some t)),
      isEmail = (\<lambda>s. CHR ''@'' \<in> set s),
      normalizeEmail = (\<lambda>s. s),
      qrcode_toDataURL = (\<lambda>s l. ''data:image/png;base64,'' @ s)\<rparr>"

definition doc :: user where
  "doc =
     \<lparr>user_id = ''u1'', email = ''doc@h.com'', password_hash = ''bcrypt:secret1'',
      role = ''doctor'', is_active = True, last_login = None,
      failed_login_attempts = Some 0, locked_until = None,
      two_factor_enabled = False, two_factor_secret = None,
      staff = JNull, other_columns = []\<rparr>"

definition hospital :: "user \<Rightarrow> world" where
  "hospital u = \<lparr>users = [u], redis = (\<lambda>k. None), redis_faults = [], audit_log = []\<rparr>"

definition login_as :: "string \<Rightarrow> string \<Rightarrow> string option \<Rightarrow> login_request" where
  "login_as em pw code =
     \<lparr>ip = ''10.0.0.1'', user_agent = None, authorization = None,
      body_email = em, body_password = pw, twoFactorToken = code, validation_errors = []\<rparr>"

definition doc_2fa :: user where
  "doc_2fa = doc\<lparr>two_factor_enabled := True, two_factor_secret := Some ''JBSWY3DP''\<rparr>"

definition doc_after_lock :: user where
  "doc_after_lock = doc\<lparr>failed_login_attempts := Some 5, locked_until := Some 1805000\<rparr>"

definition doc_token :: token where
  "doc_token = generateToken demo_env 0 ''u1'' ''doctor''"

definition bearing :: "token \<Rightarrow> request" where
  "bearing tok = \<lparr>ip = ''10.0.0.1'', user_agent = None, authorization = Some [Opaque ''Bearer'', tok]\<rparr>"

definition ten_logins :: "(int \<times> login_request) list" where
  "ten_logins =
     map (\<lambda>t. (t, login_as ''doc@h.com'' ''secret1'' None))
       [1000, 2000, 3000, 4000, 5000, 6000, 7000, 8000, 9000, 10000]"

definition five_guesses :: "(int \<times> login_request) list" where
  "five_guesses =
     [(1000, login_as ''doc@h.com'' ''guess1'' None),
      (2000, login_as ''doc@h.com'' ''guess2'' None),
      (3000, login_as ''doc@h.com'' ''guess3'' None),
      (4000, login_as ''doc@h.com'' ''guess4'' None),
      (5000, login_as ''doc@h.com'' ''guess5'' None)]"

section \<open>Properties\<close>

subsection \<open>The users table\<close>

lemma find_Some_mem: "find P xs = Some x \<Longrightarrow> x \<in> set xs \<and> P x"
  by (induction xs) (auto split: if_splits)

lemma find_by_key:
  "distinct (map f xs) \<Longrightarrow> x \<in> set xs \<Longrightarrow> find (\<lambda>y. f y = f x) xs = Some x"
  by (induction xs) auto

lemma findByPk_row:
  "distinct (map user_id us) \<Longrightarrow> u \<in> set us \<Longrightarrow> findByPk us (user_id u) = Some u"
  unfolding findByPk_def by (rule find_by_key)

lemma findOne_mem: "findOne us em = Some u \<Longrightarrow> u \<in> set us \<and> email u = em \<and> is_active u"
  unfolding findOne_def by (drule find_Some_mem) simp

lemma findByPk_findOne:
  "distinct (map user_id us) \<Longrightarrow> findOne us em = Some u \<Longrightarrow> findByPk us (user_id u) = Some u"
  by (simp add: findByPk_row findOne_mem)

lemma map_user_id_update:
  "(\<And>r. user_id (f r) = user_id r) \<Longrightarrow> map user_id (update_user i f us) = map user_id us"
  by (induction us) (auto simp: update_user_def)

lemma find_update_user:
  assumes "distinct (map user_id us)" and "find P us = Some u"
    and "P (f u)"
  shows "find P (update_user (user_id u) f us) = Some (f u)"
  using assms
proof (induction us)
  case Nil
  then show ?case by simp
next
  case (Cons a us)
  show ?case
  proof (cases "P a")
    case True
    with Cons.prems have "a = u" by simp
    with Cons.prems show ?thesis by (simp add: update_user_def)
  next
    case False
    with Cons.prems have tl: "find P us = Some u" by simp
    then have "u \<in> set us" by (simp add: find_Some_mem)
    with Cons.prems(1) have "user_id a \<noteq> user_id u" by force
    moreover have "find P (update_user (user_id u) f us) = Some (f u)"
      using Cons.IH Cons.prems tl by simp
    ultimately show ?thesis using False by (simp add: update_user_def)
  qed
qed

lemma findOne_update_user:
  assumes "distinct (map user_id us)" and "findOne us em = Some u"
    and "email (f u) = email u" and "is_active (f u) = is_active u"
  shows "findOne (update_user (user_id u) f us) em = Some (f u)"
  using assms findOne_mem [OF assms(2)] unfolding findOne_def
  by (intro find_update_user) auto

lemma findByPk_update_user:
  assumes "distinct (map user_id us)" and "findByPk us i = Some u" and "user_id (f u) = user_id u"
  shows "findByPk (update_user i f us) i = Some (f u)"
proof -
  have i: "user_id u = i" using assms(2) unfolding findByPk_def by (drule_tac find_Some_mem) simp
  show ?thesis
    using assms(1) assms(2) assms(3) i unfolding findByPk_def
    using find_update_user [of us "\<lambda>u. user_id u = i" u f] by simp
qed


subsection \<open>Steps of the login handler\<close>

lemma live_lock_None: "live_lock now u = None \<longleftrightarrow> \<not> is_locked now u"
  by (simp add: is_locked_def)

lemma handleFailedLogin_found:
  assumes "findByPk (users w) uid = Some u"
  shows "users (handleFailedLogin now uid w) =
           update_user (user_id u)
             (\<lambda>r. if 5 \<le> attempts_or_0 u + 1
                  then r\<lparr>failed_login_attempts := Some (attempts_or_0 u + 1),
                         locked_until := Some (now + 30 * 60 * 1000)\<rparr>
                  else r\<lparr>failed_login_attempts := Some (attempts_or_0 u + 1)\<rparr>) (users w)"
    and "redis (handleFailedLogin now uid w) = redis w"
    and "redis_faults (handleFailedLogin now uid w) = redis_faults w"
  using assms by (simp_all add: handleFailedLogin_def Let_def logSecurityEvent_def)

lemma login_wrong_password:
  assumes wf: "distinct (map user_id (users w))"
    and acct: "findOne (users w) (body_email req) = Some u"
    and valid: "validation_errors req = []"
    and open_: "\<not> is_locked now u"
    and wrong: "\<not> verifyPassword e (body_password req) (password_hash u)"
  shows "\<exists>w'. login_handler e now w req = (invalid_credentials, w')
           \<and> distinct (map user_id (users w'))
           \<and> findOne (users w') (body_email req) =
               Some (if 5 \<le> attempts_or_0 u + 1
                     then u\<lparr>failed_login_attempts := Some (attempts_or_0 u + 1),
                            locked_until := Some (now + 30 * 60 * 1000)\<rparr>
                     else u\<lparr>failed_login_attempts := Some (attempts_or_0 u + 1)\<rparr>)
           \<and> redis w' = redis w \<and> redis_faults w' = redis_faults w"
proof -
  let ?f = "\<lambda>r. if 5 \<le> attempts_or_0 u + 1
                  then r\<lparr>failed_login_attempts := Some (attempts_or_0 u + 1),
                         locked_until := Some (now + 30 * 60 * 1000)\<rparr>
                  else r\<lparr>failed_login_attempts := Some (attempts_or_0 u + 1)\<rparr>"
  let ?w1 = "handleFailedLogin now (user_id u) w"
  let ?w' = "logSecurityEvent now ''login_attempt_invalid_password'' (Some (user_id u))
               (request_details req) ?w1"
  have pk: "findByPk (users w) (user_id u) = Some u"
    using wf acct by (rule findByPk_findOne)
  have run: "login_handler e now w req = (invalid_credentials, ?w')"
    using acct valid open_ wrong by (simp add: login_handler_def live_lock_None [symmetric])
  have us: "users ?w' = update_user (user_id u) ?f (users w)"
    using handleFailedLogin_found(1) [OF pk] by (simp add: logSecurityEvent_def)
  have ids: "map user_id (users ?w') = map user_id (users w)"
    unfolding us by (rule map_user_id_update) simp
  have row: "findOne (users ?w') (body_email req) = Some (?f u)"
    unfolding us using wf acct by (rule findOne_update_user) simp_all
  have "redis ?w' = redis w" "redis_faults ?w' = redis_faults w"
    using handleFailedLogin_found(2,3) [OF pk] by (simp_all add: logSecurityEvent_def)
  with run ids row wf show ?thesis by auto
qed


lemma serve_append:
  "serve h w (xs @ ys) =
     (case serve h w xs of (r1, w1) \<Rightarrow> (case serve h w1 ys of (r2, w2) \<Rightarrow> (r1 @ r2, w2)))"
  by (induction xs arbitrary: w) (auto split: prod.splits)

lemma login_while_locked:
  assumes "findOne (users w) (body_email req) = Some u"
    and "validation_errors req = []"
    and "locked_until u = Some until" and "now < until"
  shows "login_handler e now w req = (account_locked (lockTimeRemaining until now), w)"
  using assms by (simp add: login_handler_def live_lock_def)

text \<open>An attempt that is answered \<^verbatim>\<open>401 Invalid credentials\<close> for an account that exists
  has passed the lockout check and has failed the password check.\<close>

lemma invalid_credentials_means:
  assumes "findOne (users w) (body_email req) = Some u"
    and "validation_errors req = []"
    and "fst (login_handler e now w req) = invalid_credentials"
  shows "\<not> is_locked now u \<and> \<not> verifyPassword e (body_password req) (password_hash u)"
proof -
  have "fst (complete_login e now w req u) \<noteq> invalid_credentials"
    by (simp add: complete_login_def createSession_def redis_setex_def redis_call_def Let_def
          login_failed_def login_successful_def invalid_credentials_def json_response_def
        split: list.splits option.splits)
  with assms show ?thesis
    by (auto simp: login_handler_def live_lock_None [symmetric] account_locked_def
          invalid_credentials_def two_factor_required_def login_failed_def invalid_two_factor_def
          json_response_def
        split: if_splits option.splits sum.splits)
qed

lemma failures_accumulate:
  assumes "distinct (map user_id (users w))"
    and "findOne (users w) em = Some u"
    and "\<forall>(t, req) \<in> set attempts. validation_errors req = [] \<and> body_email req = em"
    and "fst (serve (login_handler e) w attempts) = replicate (length attempts) invalid_credentials"
  shows "\<exists>u'. distinct (map user_id (users (snd (serve (login_handler e) w attempts))))
           \<and> findOne (users (snd (serve (login_handler e) w attempts))) em = Some u'
           \<and> attempts_or_0 u' = attempts_or_0 u + int (length attempts)"
  using assms
proof (induction attempts arbitrary: w u)
  case Nil
  then show ?case by simp
next
  case (Cons a attempts)
  obtain t req where a: "a = (t, req)" by (cases a)
  from Cons.prems(3) a have hd: "validation_errors req = []" "body_email req = em" by auto
  from Cons.prems(4) a have resp: "fst (login_handler e t w req) = invalid_credentials"
    and rest: "fst (serve (login_handler e) (snd (login_handler e t w req)) attempts) =
                 replicate (length attempts) invalid_credentials"
    by (simp_all add: case_prod_beta)
  have acct: "findOne (users w) (body_email req) = Some u" using Cons.prems(2) hd(2) by simp
  from invalid_credentials_means [OF acct hd(1) resp]
  have "\<not> is_locked t u" "\<not> verifyPassword e (body_password req) (password_hash u)" by simp_all
  from login_wrong_password [OF Cons.prems(1) acct hd(1) this]
  obtain u1 where u1: "distinct (map user_id (users (snd (login_handler e t w req))))"
      "findOne (users (snd (login_handler e t w req))) em = Some u1"
      "attempts_or_0 u1 = attempts_or_0 u + 1"
    using hd(2) by (auto simp: attempts_or_0_def)
  have "\<forall>(t, req) \<in> set attempts. validation_errors req = [] \<and> body_email req = em"
    using Cons.prems(3) by simp
  from Cons.IH [OF u1(1) u1(2) this rest] u1(3) show ?case
    by (auto simp: a case_prod_beta)
qed

subsection \<open>Lockout after repeated failures\<close>

text \<open>
  Claim C1. Take any account, its counter not negative, and five login attempts for it in
  a row that are each answered \<^verbatim>\<open>401 Invalid credentials\<close>. After the fifth the row holds
  the counter raised by 5, so 5 for an account without a failure on record, and a lock that
  expires 30 minutes after the instant of that fifth attempt. Every attempt made before
  this expiry, whatever password or code it carries, is answered 423 and changes nothing.
\<close>

theorem five_failures_lock:
  assumes wf: "distinct (map user_id (users w))"
    and acct: "findOne (users w) em = Some u"
    and nonneg: "0 \<le> attempts_or_0 u"
    and five: "length attempts = 5"
    and each: "\<forall>(t, req) \<in> set attempts. validation_errors req = [] \<and> body_email req = em"
    and failed: "fst (serve (login_handler e) w attempts) = replicate 5 invalid_credentials"
  shows "\<exists>u'. findOne (users (snd (serve (login_handler e) w attempts))) em = Some u'
           \<and> failed_login_attempts u' = Some (attempts_or_0 u + 5)
           \<and> locked_until u' = Some (fst (last attempts) + 30 * 60 * 1000)
           \<and> (\<forall>now req. now < fst (last attempts) + 30 * 60 * 1000
                 \<and> validation_errors req = [] \<and> body_email req = em
               \<longrightarrow> status (fst (login_handler e now (snd (serve (login_handler e) w attempts)) req)) = 423
                   \<and> snd (login_handler e now (snd (serve (login_handler e) w attempts)) req) =
                       snd (serve (login_handler e) w attempts))"
proof -
  from five obtain first4 t5 r5 where split: "attempts = first4 @ [(t5, r5)]" "length first4 = 4"
    by (cases attempts rule: rev_cases) auto
  let ?w4 = "snd (serve (login_handler e) w first4)"
  let ?w5 = "snd (login_handler e t5 ?w4 r5)"
  have w5: "snd (serve (login_handler e) w attempts) = ?w5"
    by (simp add: split serve_append case_prod_beta)
  have "fst (serve (login_handler e) w first4) @ [fst (login_handler e t5 ?w4 r5)] =
          replicate 4 invalid_credentials @ [invalid_credentials]"
    using failed by (simp add: split serve_append case_prod_beta numeral_eq_Suc replicate_append_same)
  then have four: "fst (serve (login_handler e) w first4) = replicate (length first4) invalid_credentials"
    and fifth: "fst (login_handler e t5 ?w4 r5) = invalid_credentials"
    using split(2) by simp_all
  have first: "\<forall>(t, req) \<in> set first4. validation_errors req = [] \<and> body_email req = em"
    using each split by auto
  from failures_accumulate [OF wf acct first four]
  obtain u4 where u4: "distinct (map user_id (users ?w4))" "findOne (users ?w4) em = Some u4"
      "attempts_or_0 u4 = attempts_or_0 u + 4"
    using split(2) by auto
  have r5: "validation_errors r5 = []" "body_email r5 = em" using each split by auto
  have acct4: "findOne (users ?w4) (body_email r5) = Some u4" using u4(2) r5(2) by simp
  from invalid_credentials_means [OF acct4 r5(1) fifth]
  have "\<not> is_locked t5 u4" "\<not> verifyPassword e (body_password r5) (password_hash u4)" by simp_all
  from login_wrong_password [OF u4(1) acct4 r5(1) this] u4(3) nonneg r5(2)
  have row: "findOne (users ?w5) em =
      Some (u4\<lparr>failed_login_attempts := Some (attempts_or_0 u + 5),
               locked_until := Some (t5 + 30 * 60 * 1000)\<rparr>)"
    by auto
  let ?u5 = "u4\<lparr>failed_login_attempts := Some (attempts_or_0 u + 5),
               locked_until := Some (t5 + 30 * 60 * 1000)\<rparr>"
  have sixth: "status (fst (login_handler e now ?w5 req)) = 423 \<and> snd (login_handler e now ?w5 req) = ?w5"
    if "now < t5 + 30 * 60 * 1000" "validation_errors req = []" "body_email req = em" for now req
    using login_while_locked [of ?w5 req ?u5 "t5 + 30 * 60 * 1000" now e] that row
    by (simp add: account_locked_def json_response_def)
  show ?thesis
    unfolding w5 using row sixth split(1) by (intro exI [of _ ?u5]) simp
qed

theorem five_failures_lock_witness:
  "\<exists>u'. findOne (users (snd (serve (login_handler demo_env) (hospital doc) five_guesses)))
            ''doc@h.com'' = Some u'
       \<and> failed_login_attempts u' = Some 5
       \<and> locked_until u' = Some 1805000
       \<and> status (fst (login_handler demo_env 6000
                        (snd (serve (login_handler demo_env) (hospital doc) five_guesses))
                        (login_as ''doc@h.com'' ''secret1'' None))) = 423"
proof -
  have acct: "findOne (users (hospital doc)) ''doc@h.com'' = Some doc"
    by (simp add: hospital_def doc_def findOne_def)
  have wf: "distinct (map user_id (users (hospital doc)))" by (simp add: hospital_def)
  have nonneg: "0 \<le> attempts_or_0 doc" by (simp add: attempts_or_0_def doc_def)
  have five: "length five_guesses = 5" by (simp add: five_guesses_def)
  have each: "\<forall>(t, req) \<in> set five_guesses. validation_errors req = [] \<and> body_email req = ''doc@h.com''"
    by (simp add: five_guesses_def login_as_def)
  have failed: "fst (serve (login_handler demo_env) (hospital doc) five_guesses) =
      replicate 5 invalid_credentials"
    by (simp add: five_guesses_def login_handler_def hospital_def doc_def login_as_def findOne_def
          findByPk_def live_lock_def verifyPassword_def demo_env_def handleFailedLogin_def
          attempts_or_0_def update_user_def logSecurityEvent_def Let_def numeral_eq_Suc)
  have lst: "fst (last five_guesses) = 5000" by (simp add: five_guesses_def)
  from five_failures_lock [OF wf acct nonneg five each failed]
  obtain u' where u': "findOne (users (snd (serve (login_handler demo_env) (hospital doc) five_guesses)))
            ''doc@h.com'' = Some u'"
      "failed_login_attempts u' = Some (attempts_or_0 doc + 5)"
      "locked_until u' = Some (fst (last five_guesses) + 30 * 60 * 1000)"
      "\<forall>now req. now < fst (last five_guesses) + 30 * 60 * 1000
                 \<and> validation_errors req = [] \<and> body_email req = ''doc@h.com''
               \<longrightarrow> status (fst (login_handler demo_env now
                      (snd (serve (login_handler demo_env) (hospital doc) five_guesses)) req)) = 423
                   \<and> snd (login_handler demo_env now
                      (snd (serve (login_handler demo_env) (hospital doc) five_guesses)) req) =
                       snd (serve (login_handler demo_env) (hospital doc) five_guesses)"
    by blast
  from u'(4) lst have "status (fst (login_handler demo_env 6000
                        (snd (serve (login_handler demo_env) (hospital doc) five_guesses))
                        (login_as ''doc@h.com'' ''secret1'' None))) = 423"
    by (simp add: login_as_def)
  with u'(1,2,3) lst show ?thesis by (auto simp: attempts_or_0_def doc_def)
qed

subsection \<open>The end of a login\<close>

lemma complete_login_users:
  "users (snd (complete_login e now w req u)) =
     update_user (user_id u)
       (\<lambda>r. r\<lparr>failed_login_attempts := Some 0, locked_until := None, last_login := Some now\<rparr>)
       (users w)"
  by (simp add: complete_login_def createSession_def redis_setex_def redis_call_def
        resetFailedAttempts_def logSecurityEvent_def Let_def
      split: list.splits option.splits)

lemma complete_login_healthy:
  "redis_faults w = [] \<Longrightarrow>
   fst (complete_login e now w req u) =
     login_successful (generateToken e now (user_id u) (role u))
       (json_delete ''two_factor_secret'' (json_delete ''password_hash'' (toJSON u)))"
  by (simp add: complete_login_def createSession_def redis_setex_def redis_call_def
        resetFailedAttempts_def Let_def)

lemma login_reaches_end:
  assumes "findOne (users w) (body_email req) = Some u"
    and "validation_errors req = []"
    and "\<not> is_locked now u"
    and "verifyPassword e (body_password req) (password_hash u)"
    and "two_factor_enabled u \<longrightarrow>
           (\<exists>t. twoFactorToken req = Some t \<and> t \<noteq> []
                \<and> verifyTwoFactorToken e now t (two_factor_secret u) = Inr True)"
  shows "login_handler e now w req = complete_login e now w req u"
  using assms by (auto simp: login_handler_def live_lock_None [symmetric])

subsection \<open>An invalid second-factor code\<close>

lemma invalid_code_changes_no_row:
  assumes "findOne (users w) (body_email req) = Some u"
    and "validation_errors req = []"
    and "\<not> is_locked now u"
    and "verifyPassword e (body_password req) (password_hash u)"
    and "two_factor_enabled u"
    and "twoFactorToken req = Some t" and "t \<noteq> []"
    and "verifyTwoFactorToken e now t (two_factor_secret u) = Inr False"
  shows "fst (login_handler e now w req) = invalid_two_factor"
    and "users (snd (login_handler e now w req)) = users w"
  using assms by (simp_all add: login_handler_def live_lock_None [symmetric] logSecurityEvent_def)

text \<open>
  Claim C2 says that an invalid code of an enrolled account goes through the failed-login
  transition of the lockout tracker. The handler does not do so: its branch for an invalid
  code logs the event and answers 401, without the call of \<^verbatim>\<open>handleFailedLogin\<close> that
  the branch for a wrong password makes. Here six logins with the right password and a
  wrong code are each answered 401, and the row of the account is the same afterwards: its
  counter is still 0 and no lock is set.
\<close>

theorem invalid_2fa_codes_not_counted:
  "map status (fst (serve (login_handler demo_env) (hospital doc_2fa)
       [(1000, login_as ''doc@h.com'' ''secret1'' (Some ''000001'')),
        (2000, login_as ''doc@h.com'' ''secret1'' (Some ''000002'')),
        (3000, login_as ''doc@h.com'' ''secret1'' (Some ''000003'')),
        (4000, login_as ''doc@h.com'' ''secret1'' (Some ''000004'')),
        (5000, login_as ''doc@h.com'' ''secret1'' (Some ''000005'')),
        (6000, login_as ''doc@h.com'' ''secret1'' (Some ''000006''))])) = [401, 401, 401, 401, 401, 401]
   \<and> users (snd (serve (login_handler demo_env) (hospital doc_2fa)
       [(1000, login_as ''doc@h.com'' ''secret1'' (Some ''000001'')),
        (2000, login_as ''doc@h.com'' ''secret1'' (Some ''000002'')),
        (3000, login_as ''doc@h.com'' ''secret1'' (Some ''000003'')),
        (4000, login_as ''doc@h.com'' ''secret1'' (Some ''000004'')),
        (5000, login_as ''doc@h.com'' ''secret1'' (Some ''000005'')),
        (6000, login_as ''doc@h.com'' ''secret1'' (Some ''000006''))])) = [doc_2fa]
   \<and> failed_login_attempts doc_2fa = Some 0 \<and> locked_until doc_2fa = None"
  by (simp add: login_handler_def hospital_def doc_2fa_def doc_def login_as_def findOne_def
        live_lock_def verifyPassword_def verifyTwoFactorToken_def demo_env_def
        logSecurityEvent_def invalid_two_factor_def json_response_def)

subsection \<open>The end of a lock\<close>

text \<open>
  Claim C3, as stated, fails. The account here was locked until 1805000 with a counter of 5.
  At that instant the lock is over, and the next access is a login with a wrong password:
  neither the counter nor the expiry is cleared, the counter goes to 6 and the account is
  locked again at once, for another 30 minutes. The same attempt on a fresh account leaves
  a counter of 1 and no lock.
\<close>

theorem expired_lock_not_cleared:
  "is_locked 1804999 doc_after_lock \<and> \<not> is_locked 1805000 doc_after_lock
   \<and> fst (login_handler demo_env 1805000 (hospital doc_after_lock)
             (login_as ''doc@h.com'' ''guess6'' None)) = invalid_credentials
   \<and> users (snd (login_handler demo_env 1805000 (hospital doc_after_lock)
             (login_as ''doc@h.com'' ''guess6'' None))) =
       [doc\<lparr>failed_login_attempts := Some 6, locked_until := Some 3605000\<rparr>]
   \<and> users (snd (login_handler demo_env 1805000 (hospital doc)
             (login_as ''doc@h.com'' ''guess6'' None))) =
       [doc\<lparr>failed_login_attempts := Some 1\<rparr>]"
  by (simp add: login_handler_def hospital_def doc_after_lock_def doc_def login_as_def findOne_def
        findByPk_def is_locked_def live_lock_def verifyPassword_def demo_env_def handleFailedLogin_def
        attempts_or_0_def update_user_def logSecurityEvent_def request_details_def
        json_of_option_def Let_def)

text \<open>
  Claim C3, amended. For an account whose lock has expired (\<open>until \<le> now\<close>), a login with
  the right password, and a valid code if a second factor is enrolled, is not answered with
  the lockout error; it goes through \<^verbatim>\<open>resetFailedAttempts\<close>, which leaves the row with a
  counter of 0 and no expiry, the lockout state of a fresh account. With a healthy store the
  answer is the successful login with its token.
\<close>

theorem expired_lock_cleared_by_successful_login:
  assumes wf: "distinct (map user_id (users w))"
    and acct: "findOne (users w) (body_email req) = Some u"
    and valid: "validation_errors req = []"
    and expired: "locked_until u = Some until" "until \<le> now"
    and pw: "verifyPassword e (body_password req) (password_hash u)"
    and code: "two_factor_enabled u \<longrightarrow>
           (\<exists>t. twoFactorToken req = Some t \<and> t \<noteq> []
                \<and> verifyTwoFactorToken e now t (two_factor_secret u) = Inr True)"
  shows "status (fst (login_handler e now w req)) \<noteq> 423
       \<and> findOne (users (snd (login_handler e now w req))) (body_email req) =
           Some (u\<lparr>failed_login_attempts := Some 0, locked_until := None, last_login := Some now\<rparr>)
       \<and> (redis_faults w = [] \<longrightarrow>
            fst (login_handler e now w req) =
              login_successful (generateToken e now (user_id u) (role u)) (public_user_data u))"
proof -
  have open_: "\<not> is_locked now u" using expired by (simp add: is_locked_def live_lock_def)
  have run: "login_handler e now w req = complete_login e now w req u"
    using acct valid open_ pw code by (rule login_reaches_end)
  have st: "status (fst (complete_login e now w req u)) \<noteq> 423"
    by (simp add: complete_login_def createSession_def redis_setex_def redis_call_def Let_def
          login_failed_def login_successful_def json_response_def
        split: list.splits option.splits)
  have row: "findOne (users (snd (complete_login e now w req u))) (body_email req) =
           Some (u\<lparr>failed_login_attempts := Some 0, locked_until := None, last_login := Some now\<rparr>)"
    unfolding complete_login_users using wf acct by (rule findOne_update_user) simp_all
  show ?thesis
    using st row complete_login_healthy [of w e now req u]
    by (simp add: run public_user_data_def)
qed

theorem expired_lock_cleared_by_successful_login_witness:
  "status (fst (login_handler demo_env 1805000 (hospital doc_after_lock)
                 (login_as ''doc@h.com'' ''secret1'' None))) = 200
   \<and> findOne (users (snd (login_handler demo_env 1805000 (hospital doc_after_lock)
                 (login_as ''doc@h.com'' ''secret1'' None)))) ''doc@h.com'' =
       Some (doc\<lparr>failed_login_attempts := Some 0, locked_until := None, last_login := Some 1805000\<rparr>)"
  using expired_lock_cleared_by_successful_login
    [of "hospital doc_after_lock" "login_as ''doc@h.com'' ''secret1'' None" doc_after_lock
        1805000 1805000 demo_env]
  by (simp add: hospital_def doc_after_lock_def doc_def login_as_def findOne_def
        verifyPassword_def demo_env_def login_successful_def json_response_def)

subsection \<open>What a successful login returns\<close>

lemma json_delete_keys: "k \<notin> fst ` set (json_delete k props)"
  by (auto simp: json_delete_def)

lemma json_delete_subset: "fst ` set (json_delete k props) \<subseteq> fst ` set props"
  by (auto simp: json_delete_def)

lemma public_user_data_keys:
  "''password_hash'' \<notin> fst ` set (public_user_data u)"
  "''two_factor_secret'' \<notin> fst ` set (public_user_data u)"
  unfolding public_user_data_def
  using json_delete_keys [of "''password_hash''" "toJSON u"]
    json_delete_subset [of "''two_factor_secret''" "json_delete ''password_hash'' (toJSON u)"]
    json_delete_keys [of "''two_factor_secret''" "json_delete ''password_hash'' (toJSON u)"]
  by auto

lemma public_user_data_independent:
  "public_user_data (u\<lparr>password_hash := h, two_factor_secret := s\<rparr>) = public_user_data u"
  by (simp add: public_user_data_def toJSON_def json_delete_def)

lemma complete_login_response:
  "fst (complete_login e now w req u) =
     login_successful (generateToken e now (user_id u) (role u)) (public_user_data u)
   \<or> status (fst (complete_login e now w req u)) = 500"
  by (simp add: complete_login_def createSession_def redis_setex_def redis_call_def Let_def
        login_failed_def json_response_def public_user_data_def
      split: list.splits option.splits)

lemma login_success_shape:
  assumes "status (fst (login_handler e now w req)) = 200"
    and "fst (login_handler e now w req) \<noteq> two_factor_required"
  shows "\<exists>u. findOne (users w) (body_email req) = Some u
           \<and> fst (login_handler e now w req) =
               login_successful (generateToken e now (user_id u) (role u)) (public_user_data u)"
proof (cases "findOne (users w) (body_email req)")
  case None
  with assms show ?thesis
    by (simp add: login_handler_def validation_failed_def invalid_credentials_def json_response_def
          split: if_splits)
next
  case (Some u)
  have "fst (login_handler e now w req) = fst (complete_login e now w req u)"
    using assms Some
    by (simp add: login_handler_def validation_failed_def invalid_credentials_def
          account_locked_def invalid_two_factor_def login_failed_def json_response_def
        split: if_splits option.splits sum.splits)
  with assms(1) complete_login_response [of e now w req u] Some show ?thesis by auto
qed

text \<open>
  Claim C9. A fully successful login (status 200 and not the request for a second factor)
  answers with the token of the account and the user object \<open>public_user_data\<close>. This
  object has no property \<^verbatim>\<open>password_hash\<close> and none \<^verbatim>\<open>two_factor_secret\<close>, and it is
  the same whatever the password hash and the two-factor secret of the account are.
\<close>

theorem login_response_hides_secrets:
  assumes "status (fst (login_handler e now w req)) = 200"
    and "fst (login_handler e now w req) \<noteq> two_factor_required"
  shows "\<exists>u. findOne (users w) (body_email req) = Some u
           \<and> fst (login_handler e now w req) =
               login_successful (generateToken e now (user_id u) (role u)) (public_user_data u)
           \<and> ''password_hash'' \<notin> fst ` set (public_user_data u)
           \<and> ''two_factor_secret'' \<notin> fst ` set (public_user_data u)
           \<and> (\<forall>h s. public_user_data (u\<lparr>password_hash := h, two_factor_secret := s\<rparr>)
                      = public_user_data u)"
  using login_success_shape [OF assms] public_user_data_keys public_user_data_independent
  by blast

theorem login_response_hides_secrets_witness:
  "fst (login_handler demo_env 1000 (hospital doc_2fa)
          (login_as ''doc@h.com'' ''secret1'' (Some ''JBSWY3DP''))) =
     login_successful (generateToken demo_env 1000 ''u1'' ''doctor'') (public_user_data doc_2fa)
   \<and> public_user_data doc_2fa =
       [(''id'', JStr ''u1''), (''email'', JStr ''doc@h.com''), (''role'', JStr ''doctor''),
        (''is_active'', JBool True), (''last_login'', JNull), (''failed_login_attempts'', JNum 0),
        (''locked_until'', JNull), (''two_factor_enabled'', JBool True), (''staff'', JNull)]"
proof -
  have *: "findOne (users (hospital doc_2fa)) ''doc@h.com'' = Some doc_2fa"
    by (simp add: hospital_def doc_2fa_def doc_def findOne_def)
  have "status (fst (login_handler demo_env 1000 (hospital doc_2fa)
          (login_as ''doc@h.com'' ''secret1'' (Some ''JBSWY3DP'')))) = 200"
       "fst (login_handler demo_env 1000 (hospital doc_2fa)
          (login_as ''doc@h.com'' ''secret1'' (Some ''JBSWY3DP''))) \<noteq> two_factor_required"
    by (simp_all add: login_handler_def hospital_def doc_2fa_def doc_def login_as_def findOne_def
        live_lock_def verifyPassword_def verifyTwoFactorToken_def demo_env_def
        complete_login_def createSession_def redis_setex_def redis_call_def
        resetFailedAttempts_def Let_def login_successful_def two_factor_required_def json_response_def)
  from login_response_hides_secrets [OF this] *
  have "fst (login_handler demo_env 1000 (hospital doc_2fa)
          (login_as ''doc@h.com'' ''secret1'' (Some ''JBSWY3DP''))) =
     login_successful (generateToken demo_env 1000 (user_id doc_2fa) (role doc_2fa)) (public_user_data doc_2fa)"
    by (auto simp: login_as_def)
  moreover have "public_user_data doc_2fa =
       [(''id'', JStr ''u1''), (''email'', JStr ''doc@h.com''), (''role'', JStr ''doctor''),
        (''is_active'', JBool True), (''last_login'', JNull), (''failed_login_attempts'', JNum 0),
        (''locked_until'', JNull), (''two_factor_enabled'', JBool True), (''staff'', JNull)]"
    by (simp add: public_user_data_def toJSON_def json_delete_def doc_2fa_def doc_def json_of_option_def)
  ultimately show ?thesis by (simp add: doc_2fa_def doc_def)
qed

subsection \<open>Between the start and the end of an enrollment\<close>




subsection \<open>The rate limiter\<close>

lemma live_None_later: "live t0 x = None \<Longrightarrow> t0 \<le> t \<Longrightarrow> live t x = None"
  by (auto simp: live_def split: option.splits if_splits)

lemma authRateLimit_first:
  assumes "redis_faults w = []" and "live now (redis w (Auth_rate_limit addr)) = None"
  shows "authRateLimit now w addr =
           (Next (), w\<lparr>redis := (redis w)(Auth_rate_limit addr \<mapsto>
                          \<lparr>val = Counter 1, expires_at = Some (now + 15 * 60 * 1000)\<rparr>)\<rparr>)"
  using assms
  by (simp add: authRateLimit_def redis_get_def redis_multi_incr_expire_def redis_call_def Let_def)

lemma authRateLimit_next:
  assumes "redis_faults w = []"
    and "redis w (Auth_rate_limit addr) = Some \<lparr>val = Counter n, expires_at = Some x\<rparr>"
    and "now < x" and "n < 10"
  shows "authRateLimit now w addr =
           (Next (), w\<lparr>redis := (redis w)(Auth_rate_limit addr \<mapsto>
                          \<lparr>val = Counter (n + 1), expires_at = Some (now + 15 * 60 * 1000)\<rparr>)\<rparr>)"
  using assms
  by (simp add: authRateLimit_def redis_get_def redis_multi_incr_expire_def redis_call_def Let_def
        live_def truthy_def parseInt_def)

lemma authRateLimit_reject:
  assumes "redis_faults w = []"
    and "redis w (Auth_rate_limit addr) = Some \<lparr>val = Counter n, expires_at = Some x\<rparr>"
    and "now < x" and "10 \<le> n"
  shows "authRateLimit now w addr = (Respond too_many_attempts, w)"
  using assms
  by (simp add: authRateLimit_def redis_get_def redis_call_def Let_def live_def truthy_def parseInt_def)

lemma counted_Suc:
  "counted addr t0 (Suc k) w \<longleftrightarrow>
     redis_faults w = [] \<and>
     (\<exists>x. t0 + 15 * 60 * 1000 \<le> x \<and>
          redis w (Auth_rate_limit addr) = Some \<lparr>val = Counter (int (Suc k)), expires_at = Some x\<rparr>)"
proof -
  have "(case redis w (Auth_rate_limit addr) of
              None \<Rightarrow> False
            | Some x \<Rightarrow>
                val x = Counter (int (Suc k)) \<and>
                (case expires_at x of None \<Rightarrow> False | Some t \<Rightarrow> t0 + 15 * 60 * 1000 \<le> t))
      \<longleftrightarrow> (\<exists>x. t0 + 15 * 60 * 1000 \<le> x \<and>
             redis w (Auth_rate_limit addr) = Some \<lparr>val = Counter (int (Suc k)), expires_at = Some x\<rparr>)"
  proof (cases "redis w (Auth_rate_limit addr)")
    case None
    then show ?thesis by simp
  next
    case (Some y)
    then show ?thesis by (cases y) (auto split: option.splits)
  qed
  then show ?thesis unfolding counted_def by simp
qed

lemma authRateLimit_counts:
  assumes "counted addr t0 k w" and "k < 10" and "t0 \<le> now" and "now < t0 + 15 * 60 * 1000"
  shows "\<exists>w1. authRateLimit now w addr = (Next (), w1) \<and> counted addr t0 (Suc k) w1
              \<and> users w1 = users w"
proof (cases k)
  case 0
  with assms have h: "redis_faults w = []" "live now (redis w (Auth_rate_limit addr)) = None"
    by (auto simp: counted_def intro: live_None_later)
  from authRateLimit_first [OF h] h(1) assms(3) 0 show ?thesis
    by (simp add: counted_Suc)
next
  case (Suc j)
  with assms(1) obtain x where x: "redis_faults w = []" "t0 + 15 * 60 * 1000 \<le> x"
      "redis w (Auth_rate_limit addr) = Some \<lparr>val = Counter (int k), expires_at = Some x\<rparr>"
    by (auto simp: counted_Suc)
  have "now < x" using x(2) assms(4) by simp
  from authRateLimit_next [OF x(1) x(3) this] assms(2) assms(3) x(1) show ?thesis
    by (simp add: counted_Suc add.commute)
qed

lemma handleFailedLogin_frame:
  "redis (handleFailedLogin now uid w) = redis w"
  "redis_faults (handleFailedLogin now uid w) = redis_faults w"
  by (simp_all add: handleFailedLogin_def Let_def logSecurityEvent_def split: option.splits)

lemma complete_login_frame:
  assumes "redis_faults w = []"
  shows "redis_faults (snd (complete_login e now w req u)) = []"
    and "redis (snd (complete_login e now w req u)) (Auth_rate_limit a) = redis w (Auth_rate_limit a)"
  using assms
  by (simp_all add: complete_login_def createSession_def redis_setex_def redis_call_def
        resetFailedAttempts_def logSecurityEvent_def Let_def)

lemma login_handler_frame:
  assumes "redis_faults w = []"
  shows "redis_faults (snd (login_handler e now w req)) = []"
    and "redis (snd (login_handler e now w req)) (Auth_rate_limit a) = redis w (Auth_rate_limit a)"
  using assms complete_login_frame [OF assms]
  by (simp_all add: login_handler_def handleFailedLogin_frame logSecurityEvent_def
      split: option.splits sum.splits)

lemma login_handler_frame_counted:
  "counted addr t0 k w \<Longrightarrow> counted addr t0 k (snd (login_handler e now w req))"
  using login_handler_frame(1) [of w e now req] login_handler_frame(2) [of w e now req addr]
  by (simp add: counted_def)

lemma post_login_counts:
  assumes "counted addr t0 k w" and "k < 10" and "ip req = addr"
    and "t0 \<le> now" and "now < t0 + 15 * 60 * 1000"
  shows "counted addr t0 (Suc k) (snd (post_login e now w req))"
proof -
  from authRateLimit_counts [OF assms(1,2,4,5)]
  obtain w1 where "authRateLimit now w addr = (Next (), w1)" "counted addr t0 (Suc k) w1" by blast
  then show ?thesis
    using login_handler_frame_counted [where w = w1 and req = "login_validators e req"] assms(3)
    by (simp add: post_login_def)
qed

lemma serve_counts:
  assumes "counted addr t0 k w" and "k + length reqs \<le> 10"
    and "\<forall>(t, req) \<in> set reqs. ip req = addr \<and> t0 \<le> t \<and> t < t0 + 15 * 60 * 1000"
  shows "counted addr t0 (k + length reqs) (snd (serve (post_login e) w reqs))"
  using assms
proof (induction reqs arbitrary: w k)
  case Nil
  then show ?case by simp
next
  case (Cons a reqs)
  obtain t req where a: "a = (t, req)" by (cases a)
  have "counted addr t0 (Suc k) (snd (post_login e t w req))"
    using Cons.prems a by (intro post_login_counts) auto
  moreover have "Suc k + length reqs \<le> 10" using Cons.prems(2) by simp
  moreover have "\<forall>(t, req) \<in> set reqs. ip req = addr \<and> t0 \<le> t \<and> t < t0 + 15 * 60 * 1000"
    using Cons.prems(3) by simp
  ultimately have "counted addr t0 (Suc k + length reqs)
      (snd (serve (post_login e) (snd (post_login e t w req)) reqs))"
    by (rule Cons.IH)
  then show ?case by (simp add: a case_prod_beta)
qed

lemma post_login_over_limit:
  assumes "counted addr t0 10 w" and "ip req = addr" and "t0 \<le> now" and "now < t0 + 15 * 60 * 1000"
  shows "post_login e now (w\<lparr>users := us\<rparr>) req = (too_many_attempts, w\<lparr>users := us\<rparr>)"
proof -
  have "counted addr t0 (Suc 9) w" using assms(1) by (simp add: numeral_eq_Suc)
  then obtain x where x: "redis_faults w = []" "t0 + 15 * 60 * 1000 \<le> x"
      "redis w (Auth_rate_limit addr) = Some \<lparr>val = Counter 10, expires_at = Some x\<rparr>"
    unfolding counted_Suc by auto
  have "now < x" using x(2) assms(4) by simp
  with authRateLimit_reject [of "w\<lparr>users := us\<rparr>" addr 10 x now] x assms(2)
  show ?thesis by (simp add: post_login_def)
qed

text \<open>
  Claim C4. Take an address with no live counter at \<open>t0\<close> and a healthy store. After ten
  login requests from that address in the 15 minutes from \<open>t0\<close>, whatever they carry,
  an eleventh in the same 15 minutes is answered 429 by the rate limiter, whatever its
  credentials, and the world is left as it was. The limiter is the first middleware of the
  route and the handler is not run: the answer is the same whatever the users table holds.
\<close>

theorem eleventh_login_rejected:
  assumes healthy: "redis_faults w = []"
    and fresh: "live t0 (redis w (Auth_rate_limit addr)) = None"
    and ten: "length reqs = 10"
    and window: "\<forall>(t, req) \<in> set reqs. ip req = addr \<and> t0 \<le> t \<and> t < t0 + 15 * 60 * 1000"
    and eleventh: "ip req11 = addr \<and> t0 \<le> t11 \<and> t11 < t0 + 15 * 60 * 1000"
  shows "post_login e t11 (snd (serve (post_login e) w reqs)) req11 =
           (too_many_attempts, snd (serve (post_login e) w reqs))
       \<and> status too_many_attempts = 429
       \<and> (\<forall>us. post_login e t11 ((snd (serve (post_login e) w reqs))\<lparr>users := us\<rparr>) req11 =
                 (too_many_attempts, (snd (serve (post_login e) w reqs))\<lparr>users := us\<rparr>))"
proof -
  let ?w10 = "snd (serve (post_login e) w reqs)"
  have "counted addr t0 0 w" using healthy fresh by (simp add: counted_def)
  from serve_counts [OF this, of reqs e] ten window
  have c: "counted addr t0 10 ?w10" by simp
  have all: "post_login e t11 (?w10\<lparr>users := us\<rparr>) req11 = (too_many_attempts, ?w10\<lparr>users := us\<rparr>)" for us
    using c eleventh by (intro post_login_over_limit) auto
  have "status too_many_attempts = 429"
    by (simp add: too_many_attempts_def json_response_def)
  with all [of "users ?w10"] all show ?thesis by simp
qed
theorem eleventh_login_rejected_witness:
  "post_login demo_env 11000 (snd (serve (post_login demo_env) (hospital doc) ten_logins))
     (login_as ''doc@h.com'' ''secret1'' None) =
   (too_many_attempts, snd (serve (post_login demo_env) (hospital doc) ten_logins))
   \<and> status too_many_attempts = 429"
proof -
  have h: "redis_faults (hospital doc) = []"
      "live 1000 (redis (hospital doc) (Auth_rate_limit ''10.0.0.1'')) = None"
    by (simp_all add: hospital_def live_def)
  have ten: "length ten_logins = 10" by (simp add: ten_logins_def)
  have window: "\<forall>(t, req) \<in> set ten_logins.
      ip req = ''10.0.0.1'' \<and> 1000 \<le> t \<and> t < 1000 + 15 * 60 * 1000"
    by (simp add: ten_logins_def login_as_def)
  have eleventh: "ip (login_as ''doc@h.com'' ''secret1'' None) = ''10.0.0.1'' \<and> (1000::int) \<le> 11000
      \<and> (11000::int) < 1000 + 15 * 60 * 1000"
    by (simp add: login_as_def)
  from eleventh_login_rejected [OF h ten window eleventh, of demo_env] show ?thesis by simp
qed


text \<open>
  Claim C5. When the counter store is unavailable the rate limiter fails open. The store
  is reached by two commands: if \<^verbatim>\<open>GET\<close> throws, or if \<^verbatim>\<open>GET\<close> is served with a count
  below the ceiling and the transaction that follows throws, \<^verbatim>\<open>authRateLimit\<close> calls
  \<^verbatim>\<open>next()\<close> and the request proceeds.
\<close>

theorem authRateLimit_fail_open:
  assumes "redis_faults w = Some m # fs \<or>
           (redis_faults w = None # Some m # fs \<and>
            (\<forall>n. live now (redis w (Auth_rate_limit addr)) = Some (Counter n) \<longrightarrow> n < 10))"
  shows "fst (authRateLimit now w addr) = Next ()"
  using assms
  by (auto simp: authRateLimit_def redis_get_def redis_multi_incr_expire_def redis_call_def
        truthy_def parseInt_def Let_def
      split: option.splits redis_value.splits prod.splits sum.splits)

theorem authRateLimit_fail_open_witness:
  "fst (authRateLimit 0
      \<lparr>users = [], redis = (\<lambda>k. None), redis_faults = [Some ''ECONNREFUSED''], audit_log = []\<rparr>
      ''10.0.0.1'') = Next ()"
  using authRateLimit_fail_open
    [of "\<lparr>users = [], redis = (\<lambda>k. None), redis_faults = [Some ''ECONNREFUSED''], audit_log = []\<rparr>"
        "''ECONNREFUSED''" "[]" 0 "''10.0.0.1''"]
  by simp

subsection \<open>Authentication of a bearer token\<close>

lemma redis_get_cases:
  "(\<exists>m w1. redis_get now k w = (Inl (OtherError m), w1) \<and> users w1 = users w \<and> redis w1 = redis w)
   \<or> (\<exists>w1. redis_get now k w = (Inr (live now (redis w k)), w1) \<and> users w1 = users w \<and> redis w1 = redis w)"
  by (auto simp: redis_get_def redis_call_def split: list.splits option.splits)

lemma authenticated_means:
  assumes "authenticateToken e now w req = (Next (u', tok), w1)"
  shows "bearer req = Some tok
       \<and> (\<exists>p u. tok = Jwt (jwt_secret e) p \<and> now div 1000 < exp p
                \<and> findByPk (users w) (userId p) = Some u \<and> is_active u \<and> \<not> is_locked now u
                \<and> u' = u\<lparr>password_hash := []\<rparr>)
       \<and> (case live now (redis w (Blacklist tok)) of None \<Rightarrow> True | Some b \<Rightarrow> \<not> truthy b)
       \<and> users w1 = users w \<and> redis w1 = redis w"
proof (cases "bearer req")
  case None
  with assms show ?thesis by (simp add: authenticateToken_def)
next
  case (Some t)
  from redis_get_cases [of now "Blacklist t" w] show ?thesis
  proof (elim disjE exE conjE)
    fix m w2 assume "redis_get now (Blacklist t) w = (Inl (OtherError m), w2)"
    with assms Some show ?thesis by (simp add: authenticateToken_def)
  next
    fix w2 assume g: "redis_get now (Blacklist t) w = (Inr (live now (redis w (Blacklist t))), w2)"
      and same: "users w2 = users w" "redis w2 = redis w"
    show ?thesis
    proof (cases t)
      case (Opaque s)
      with assms Some g show ?thesis
        by (simp add: authenticateToken_def split: if_splits)
    next
      case (Jwt k p)
      with assms Some g same show ?thesis
        by (auto simp: authenticateToken_def split: if_splits option.splits)
    qed
  qed
qed

lemma never_next_while_locked:
  assumes "bearer req = Some (Jwt k p)" and "findByPk (users w) (userId p) = Some u"
    and "is_locked now u"
  shows "fst (authenticateToken e now w req) \<noteq> Next x"
proof
  assume n: "fst (authenticateToken e now w req) = Next x"
  obtain u' tok where x: "x = (u', tok)" by (cases x)
  obtain w1 where "authenticateToken e now w req = (Next (u', tok), w1)"
    using n x by (cases "authenticateToken e now w req") auto
  from authenticated_means [OF this] assms show False by auto
qed

text \<open>
  Claim C8. A request whose token names an account that is locked at this instant is never
  authenticated: \<^verbatim>\<open>authenticateToken\<close> does not call \<^verbatim>\<open>next()\<close>, whenever the token was
  issued. If the token is signed, unexpired and unrevoked, the store healthy and the
  account active, the answer is \<^verbatim>\<open>423 Account is temporarily locked\<close>.
\<close>

theorem locked_account_never_authenticated:
  assumes "bearer req = Some (Jwt k p)"
    and "findByPk (users w) (userId p) = Some u"
    and "is_locked now u"
  shows "(\<forall>x. fst (authenticateToken e now w req) \<noteq> Next x)
       \<and> (k = jwt_secret e \<and> now div 1000 < exp p
          \<and> live now (redis w (Blacklist (Jwt k p))) = None
          \<and> redis_faults w = [] \<and> is_active u
          \<longrightarrow> authenticateToken e now w req = (Respond temporarily_locked, w)
              \<and> status temporarily_locked = 423)"
proof -
  have "status temporarily_locked = 423"
    by (simp add: temporarily_locked_def json_response_def)
  moreover have "authenticateToken e now w req = (Respond temporarily_locked, w)"
    if "k = jwt_secret e" "now div 1000 < exp p"
      "live now (redis w (Blacklist (Jwt k p))) = None" "redis_faults w = []" "is_active u"
    using that assms by (simp add: authenticateToken_def redis_get_def redis_call_def)
  ultimately show ?thesis using never_next_while_locked [OF assms] by blast
qed
theorem locked_account_never_authenticated_witness:
  "authenticateToken demo_env 6000 (hospital doc_after_lock) (bearing doc_token) =
     (Respond temporarily_locked, hospital doc_after_lock)
   \<and> status temporarily_locked = 423"
  using locked_account_never_authenticated
    [of "bearing doc_token" "jwt_secret demo_env"
        "\<lparr>userId = ''u1'', jwt_role = ''doctor'', iat = 0, exp = 86400\<rparr>"
        "hospital doc_after_lock" doc_after_lock 6000 demo_env]
  by (simp add: bearing_def bearer_def doc_token_def generateToken_def jwt_expires_in_def
        demo_env_def hospital_def doc_after_lock_def doc_def findByPk_def is_locked_def
        live_lock_def live_def)

subsection \<open>Logout\<close>

lemma logout_revokes:
  assumes "logout d w req u (Jwt k p) = (logged_out, w')" and "d div 1000 < exp p"
  shows "redis w' (Blacklist (Jwt k p)) =
           Some \<lparr>val = Text ''true'', expires_at = Some (d + (exp p - d div 1000) * 1000)\<rparr>"
  using assms
  by (auto simp: logout_def Let_def redis_setex_def redis_del_def redis_call_def
        logSecurityEvent_def logged_out_def logout_failed_def json_response_def
      split: list.splits option.splits if_splits)

lemma expiry_reached:
  fixes d t x :: int
  assumes "d \<le> t" and "\<not> t < d + (x - d div 1000) * 1000"
  shows "x \<le> t div 1000"
proof -
  have "(d div 1000) * 1000 \<le> d" by simp
  with assms have "x * 1000 \<le> t" by (simp add: algebra_simps)
  then show ?thesis by simp
qed

lemma revoked_or_expired_rejected:
  assumes entry: "redis w (Blacklist (Jwt k p)) =
           Some \<lparr>val = Text ''true'', expires_at = Some (d + (exp p - d div 1000) * 1000)\<rparr>"
    and later: "d \<le> t"
    and tok: "bearer req = Some (Jwt k p)"
  shows "fst (authenticateToken e t w req) = Respond authentication_error
       \<or> fst (authenticateToken e t w req) = Respond (unauthenticated ''Token has been invalidated'')
       \<or> fst (authenticateToken e t w req) = Respond (unauthenticated ''Token has expired'')
       \<or> fst (authenticateToken e t w req) = Respond (unauthenticated ''Invalid token'')"
proof (cases "t < d + (exp p - d div 1000) * 1000")
  case True
  then have "live t (redis w (Blacklist (Jwt k p))) = Some (Text ''true'')"
    using entry by (simp add: live_def)
  with redis_get_cases [of t "Blacklist (Jwt k p)" w] tok show ?thesis
    by (auto simp: authenticateToken_def truthy_def)
next
  case False
  with later have "exp p \<le> t div 1000" by (rule expiry_reached)
  moreover have "live t (redis w (Blacklist (Jwt k p))) = None"
    using entry False by (simp add: live_def)
  ultimately show ?thesis
    using redis_get_cases [of t "Blacklist (Jwt k p)" w] tok
    by (auto simp: authenticateToken_def)
qed

text \<open>
  Claim C6. Let \<^verbatim>\<open>POST /logout\<close> succeed at the instant \<open>d\<close> for a token. The token is
  then on the denylist under \<^verbatim>\<open>blacklist:<token>\<close>, with a time-to-live of
  \<open>exp - \<lfloor>d / 1000\<rfloor>\<close> seconds, its remaining lifetime. In every later world that still
  holds this entry and at every instant from \<open>d\<close> on, \<^verbatim>\<open>authenticateToken\<close> rejects a
  request with this token: while the entry lives the token is found revoked, and when the
  entry has expired the token has expired too.
\<close>

theorem revoked_token_never_validates:
  assumes out: "post_logout e d w req = (logged_out, w')"
    and later: "d \<le> t"
    and kept: "redis w'' (Blacklist tok) = redis w' (Blacklist tok)"
    and same: "bearer req = Some tok" "bearer req' = Some tok"
  shows "(\<exists>p. tok = Jwt (jwt_secret e) p \<and> 0 < exp p - d div 1000
            \<and> redis w' (Blacklist tok) =
                Some \<lparr>val = Text ''true'', expires_at = Some (d + (exp p - d div 1000) * 1000)\<rparr>)
       \<and> (\<forall>x. fst (authenticateToken e t w'' req') \<noteq> Next x)"
proof -
  obtain o1 w1 where a: "authenticateToken e d w req = (o1, w1)"
    by (cases "authenticateToken e d w req")
  have "o1 \<noteq> Respond logged_out"
  proof
    assume "o1 = Respond logged_out"
    with a have "fst (authenticateToken e d w req) = Respond logged_out" by simp
    then show False
      by (simp add: authenticateToken_def redis_get_def redis_call_def logged_out_def
            unauthenticated_def authentication_error_def temporarily_locked_def json_response_def
          split: option.splits list.splits if_splits sum.splits js_error.splits prod.splits)
  qed
  with out a obtain u tk where n: "o1 = Next (u, tk)" and lo: "logout d w1 req u tk = (logged_out, w')"
    by (cases o1) (auto simp: post_logout_def)
  from authenticated_means [OF a [unfolded n]] same(1)
  obtain p where p: "tk = tok" "tok = Jwt (jwt_secret e) p" "d div 1000 < exp p"
    by auto
  have entry: "redis w' (Blacklist (Jwt (jwt_secret e) p)) =
      Some \<lparr>val = Text ''true'', expires_at = Some (d + (exp p - d div 1000) * 1000)\<rparr>"
    using lo p by (intro logout_revokes [of d w1 req u]) auto
  then have entry': "redis w'' (Blacklist (Jwt (jwt_secret e) p)) =
      Some \<lparr>val = Text ''true'', expires_at = Some (d + (exp p - d div 1000) * 1000)\<rparr>"
    using kept p by simp
  from revoked_or_expired_rejected [OF entry' later, of req' e] same(2) p
  have "\<forall>x. fst (authenticateToken e t w'' req') \<noteq> Next x" by auto
  with entry p show ?thesis by auto
qed
theorem revoked_token_never_validates_witness:
  "fst (post_logout demo_env 1000 (hospital doc) (bearing doc_token)) = logged_out
   \<and> redis (snd (post_logout demo_env 1000 (hospital doc) (bearing doc_token))) (Blacklist doc_token) =
       Some \<lparr>val = Text ''true'', expires_at = Some 86400000\<rparr>
   \<and> (\<forall>x. fst (authenticateToken demo_env 1000
                (snd (post_logout demo_env 1000 (hospital doc) (bearing doc_token)))
                (bearing doc_token)) \<noteq> Next x)"
proof -
  let ?w' = "snd (post_logout demo_env 1000 (hospital doc) (bearing doc_token))"
  have b: "bearer (bearing doc_token) = Some doc_token"
    by (simp add: bearer_def bearing_def doc_token_def generateToken_def)
  have f: "fst (post_logout demo_env 1000 (hospital doc) (bearing doc_token)) = logged_out"
    by (simp add: post_logout_def authenticateToken_def bearer_def bearing_def redis_get_def redis_call_def
          hospital_def live_def doc_token_def generateToken_def jwt_secret_def jwt_expires_in_def
          demo_env_def findByPk_def doc_def is_locked_def live_lock_def
          logout_def redis_setex_def redis_del_def Let_def)
  then have out: "post_logout demo_env 1000 (hospital doc) (bearing doc_token) = (logged_out, ?w')"
    by (simp add: prod_eq_iff)
  from revoked_token_never_validates [OF out, of 1000 ?w' doc_token "bearing doc_token"] b f
  show ?thesis
    by (auto simp: doc_token_def generateToken_def jwt_expires_in_def demo_env_def)
qed

subsection \<open>Reasons to reject a token\<close>

lemma unauthenticated_shape:
  "status (unauthenticated msg) = 401
   \<and> json_get ''success'' (body (unauthenticated msg)) = Some (JBool False)
   \<and> json_get ''message'' (body (unauthenticated msg)) = Some (JStr msg)"
  by (simp add: unauthenticated_def json_response_def json_get_def)

lemma redis_get_served:
  assumes "redis_faults w = [] \<or> (\<exists>fs. redis_faults w = None # fs)"
  shows "\<exists>w1. redis_get now k w = (Inr (live now (redis w k)), w1)"
  using assms by (auto simp: redis_get_def redis_call_def)

lemma rejected_missing:
  "bearer req = None \<Longrightarrow>
   fst (authenticateToken e now w req) = Respond (unauthenticated ''Access token required'')"
  by (simp add: authenticateToken_def)

lemma rejected_revoked:
  assumes "redis_faults w = [] \<or> (\<exists>fs. redis_faults w = None # fs)"
    and "bearer req = Some tok"
    and "live now (redis w (Blacklist tok)) = Some b" and "truthy b"
  shows "fst (authenticateToken e now w req) = Respond (unauthenticated ''Token has been invalidated'')"
  using redis_get_served [OF assms(1), of now "Blacklist tok"] assms(2-4)
  by (auto simp: authenticateToken_def)

lemma rejected_by_verify:
  assumes "redis_faults w = [] \<or> (\<exists>fs. redis_faults w = None # fs)"
    and "bearer req = Some tok"
    and "\<forall>b. live now (redis w (Blacklist tok)) = Some b \<longrightarrow> \<not> truthy b"
  shows "jwt_verify tok (jwt_secret e) now = Inl JsonWebTokenError \<Longrightarrow>
           fst (authenticateToken e now w req) = Respond (unauthenticated ''Invalid token'')"
    and "jwt_verify tok (jwt_secret e) now = Inl TokenExpiredError \<Longrightarrow>
           fst (authenticateToken e now w req) = Respond (unauthenticated ''Token has expired'')"
  using redis_get_served [OF assms(1), of now "Blacklist tok"] assms(2,3)
  by (auto simp: authenticateToken_def split: option.splits)

text \<open>
  Claim C7, as stated, fails: the responses are not the same. An expired token, a revoked
  one and one with a foreign signature are all answered 401, each with a message of its
  own, so the caller can tell the reasons apart. And when the lookup in the denylist
  throws, the same expired token is answered 500, not 401.
\<close>

theorem rejections_are_told_apart:
  "fst (authenticateToken demo_env 86400000 (hospital doc) (bearing doc_token)) =
     Respond (unauthenticated ''Token has expired'')
   \<and> fst (authenticateToken demo_env 2000
            (snd (post_logout demo_env 1000 (hospital doc) (bearing doc_token)))
            (bearing doc_token)) =
     Respond (unauthenticated ''Token has been invalidated'')
   \<and> fst (authenticateToken demo_env 2000 (hospital doc)
            (bearing (Jwt ''forged'' \<lparr>userId = ''u1'', jwt_role = ''admin'', iat = 0, exp = 86400\<rparr>))) =
     Respond (unauthenticated ''Invalid token'')
   \<and> body (unauthenticated ''Token has expired'') \<noteq> body (unauthenticated ''Token has been invalidated'')
   \<and> body (unauthenticated ''Token has expired'') \<noteq> body (unauthenticated ''Invalid token'')
   \<and> body (unauthenticated ''Token has been invalidated'') \<noteq> body (unauthenticated ''Invalid token'')
   \<and> fst (authenticateToken demo_env 86400000
            ((hospital doc)\<lparr>redis_faults := [Some ''ECONNREFUSED'']\<rparr>) (bearing doc_token)) =
     Respond authentication_error
   \<and> status authentication_error = 500"
  by (simp add: post_logout_def authenticateToken_def bearer_def bearing_def redis_get_def redis_call_def
          hospital_def live_def doc_token_def generateToken_def jwt_secret_def jwt_expires_in_def
          demo_env_def findByPk_def doc_def is_locked_def live_lock_def truthy_def
          logout_def redis_setex_def redis_del_def Let_def logSecurityEvent_def
          unauthenticated_def authentication_error_def json_response_def)

text \<open>
  Claim C7, amended. Every reason to reject a token is answered with status 401 and
  \<^verbatim>\<open>success: false\<close>, and the message of the answer names the reason. A request without
  a token is told \<^verbatim>\<open>Access token required\<close>. With the lookup in the denylist served, a
  revoked token is told \<^verbatim>\<open>Token has been invalidated\<close>, whatever else is wrong with it;
  a token that is not revoked is told \<^verbatim>\<open>Invalid token\<close> if it is malformed or carries a
  foreign signature, and \<^verbatim>\<open>Token has expired\<close> if it is signed by the server and past its
  expiry. The four messages are distinct.
\<close>

theorem token_rejections_are_401:
  "(\<forall>msg. status (unauthenticated msg) = 401
         \<and> json_get ''success'' (body (unauthenticated msg)) = Some (JBool False)
         \<and> json_get ''message'' (body (unauthenticated msg)) = Some (JStr msg))
   \<and> (bearer req = None \<longrightarrow>
        fst (authenticateToken e now w req) = Respond (unauthenticated ''Access token required''))
   \<and> (redis_faults w = [] \<or> (\<exists>fs. redis_faults w = None # fs) \<longrightarrow>
        (\<forall>tok. bearer req = Some tok \<longrightarrow>
           ((\<exists>b. live now (redis w (Blacklist tok)) = Some b \<and> truthy b) \<longrightarrow>
              fst (authenticateToken e now w req) =
                Respond (unauthenticated ''Token has been invalidated''))
         \<and> ((\<forall>b. live now (redis w (Blacklist tok)) = Some b \<longrightarrow> \<not> truthy b) \<longrightarrow>
              ((\<exists>s. tok = Opaque s) \<longrightarrow>
                 fst (authenticateToken e now w req) = Respond (unauthenticated ''Invalid token''))
            \<and> ((\<exists>k p. tok = Jwt k p \<and> k \<noteq> jwt_secret e) \<longrightarrow>
                 fst (authenticateToken e now w req) = Respond (unauthenticated ''Invalid token''))
            \<and> ((\<exists>p. tok = Jwt (jwt_secret e) p \<and> exp p \<le> now div 1000) \<longrightarrow>
                 fst (authenticateToken e now w req) = Respond (unauthenticated ''Token has expired'')))))
   \<and> distinct [''Access token required'', ''Token has been invalidated'',
                ''Invalid token'', ''Token has expired'']"
proof (intro conjI allI impI)
  fix msg
  show "status (unauthenticated msg) = 401"
    "json_get ''success'' (body (unauthenticated msg)) = Some (JBool False)"
    "json_get ''message'' (body (unauthenticated msg)) = Some (JStr msg)"
    using unauthenticated_shape [of msg] by simp_all
next
  assume "bearer req = None"
  then show "fst (authenticateToken e now w req) = Respond (unauthenticated ''Access token required'')"
    by (rule rejected_missing)
next
  fix tok
  assume served: "redis_faults w = [] \<or> (\<exists>fs. redis_faults w = None # fs)"
    and tok: "bearer req = Some tok"
  {
    assume "\<exists>b. live now (redis w (Blacklist tok)) = Some b \<and> truthy b"
    then obtain b where "live now (redis w (Blacklist tok)) = Some b" "truthy b" by blast
    with served tok
    show "fst (authenticateToken e now w req) = Respond (unauthenticated ''Token has been invalidated'')"
      by (rule rejected_revoked)
  }
  assume clear: "\<forall>b. live now (redis w (Blacklist tok)) = Some b \<longrightarrow> \<not> truthy b"
  {
    assume "\<exists>s. tok = Opaque s"
    then have "jwt_verify tok (jwt_secret e) now = Inl JsonWebTokenError" by auto
    with served tok clear
    show "fst (authenticateToken e now w req) = Respond (unauthenticated ''Invalid token'')"
      by (rule rejected_by_verify(1))
  }
  {
    assume "\<exists>k p. tok = Jwt k p \<and> k \<noteq> jwt_secret e"
    then have "jwt_verify tok (jwt_secret e) now = Inl JsonWebTokenError" by auto
    with served tok clear
    show "fst (authenticateToken e now w req) = Respond (unauthenticated ''Invalid token'')"
      by (rule rejected_by_verify(1))
  }
  {
    assume "\<exists>p. tok = Jwt (jwt_secret e) p \<and> exp p \<le> now div 1000"
    then have "jwt_verify tok (jwt_secret e) now = Inl TokenExpiredError" by auto
    with served tok clear
    show "fst (authenticateToken e now w req) = Respond (unauthenticated ''Token has expired'')"
      by (rule rejected_by_verify(2))
  }
next
  show "distinct [''Access token required'', ''Token has been invalidated'',
                ''Invalid token'', ''Token has expired'']"
    by simp
qed

theorem token_rejections_are_401_witness:
  "fst (authenticateToken demo_env 2000 (hospital doc)
          \<lparr>ip = ''10.0.0.1'', user_agent = None, authorization = None\<rparr>) =
     Respond (unauthenticated ''Access token required'')
   \<and> fst (authenticateToken demo_env 2000
            (snd (post_logout demo_env 1000 (hospital doc) (bearing doc_token)))
            (bearing doc_token)) =
     Respond (unauthenticated ''Token has been invalidated'')
   \<and> fst (authenticateToken demo_env 2000 (hospital doc) (bearing (Opaque ''garbage''))) =
     Respond (unauthenticated ''Invalid token'')
   \<and> fst (authenticateToken demo_env 2000 (hospital doc)
            (bearing (Jwt ''forged'' \<lparr>userId = ''u1'', jwt_role = ''admin'', iat = 0, exp = 86400\<rparr>))) =
     Respond (unauthenticated ''Invalid token'')
   \<and> fst (authenticateToken demo_env 86400000 (hospital doc) (bearing doc_token)) =
     Respond (unauthenticated ''Token has expired'')
   \<and> status (unauthenticated ''Token has expired'') = 401"
proof -
  let ?revoked = "snd (post_logout demo_env 1000 (hospital doc) (bearing doc_token))"
  have missing: "fst (authenticateToken demo_env 2000 (hospital doc)
          \<lparr>ip = ''10.0.0.1'', user_agent = None, authorization = None\<rparr>) =
     Respond (unauthenticated ''Access token required'')"
    using token_rejections_are_401
      [of "\<lparr>ip = ''10.0.0.1'', user_agent = None, authorization = None\<rparr>" demo_env 2000 "hospital doc"]
    by (simp add: bearer_def)
  have entry: "redis_faults ?revoked = []"
      "live 2000 (redis ?revoked (Blacklist doc_token)) = Some (Text ''true'')"
    by (simp_all add: post_logout_def authenticateToken_def bearer_def bearing_def redis_get_def
          redis_call_def hospital_def live_def doc_token_def generateToken_def jwt_secret_def
          jwt_expires_in_def demo_env_def findByPk_def doc_def is_locked_def live_lock_def
          logout_def redis_setex_def redis_del_def Let_def logSecurityEvent_def)
  have b: "bearer (bearing tok) = (if tok = Opaque [] then None else Some tok)" for tok
    by (simp add: bearer_def bearing_def)
  have revoked: "fst (authenticateToken demo_env 2000 ?revoked (bearing doc_token)) =
     Respond (unauthenticated ''Token has been invalidated'')"
    using token_rejections_are_401 [of "bearing doc_token" demo_env 2000 ?revoked] entry
    by (simp add: b doc_token_def generateToken_def truthy_def)
  have malformed: "fst (authenticateToken demo_env 2000 (hospital doc) (bearing (Opaque ''garbage''))) =
     Respond (unauthenticated ''Invalid token'')"
    using token_rejections_are_401 [of "bearing (Opaque ''garbage'')" demo_env 2000 "hospital doc"]
    by (simp add: b hospital_def live_def)
  have forged: "fst (authenticateToken demo_env 2000 (hospital doc)
            (bearing (Jwt ''forged'' \<lparr>userId = ''u1'', jwt_role = ''admin'', iat = 0, exp = 86400\<rparr>))) =
     Respond (unauthenticated ''Invalid token'')"
    using token_rejections_are_401
      [of "bearing (Jwt ''forged'' \<lparr>userId = ''u1'', jwt_role = ''admin'', iat = 0, exp = 86400\<rparr>)"
          demo_env 2000 "hospital doc"]
    by (simp add: b hospital_def live_def jwt_secret_def demo_env_def)
  have expired: "fst (authenticateToken demo_env 86400000 (hospital doc) (bearing doc_token)) =
     Respond (unauthenticated ''Token has expired'')"
    using token_rejections_are_401 [of "bearing doc_token" demo_env 86400000 "hospital doc"]
    by (simp add: b hospital_def live_def doc_token_def generateToken_def jwt_secret_def
          jwt_expires_in_def demo_env_def)
  have "status (unauthenticated ''Token has expired'') = 401"
    using token_rejections_are_401 [of "bearing doc_token" demo_env 86400000 "hospital doc"] by blast
  with missing revoked malformed forged expired show ?thesis by simp
qed

end
